theory Spec2Isabelle
  imports Complex_Main "HOL-Library.Word"
begin

section \<open>Vectors of the framework header\<close>

text \<open>
  The engine is written against the types \<open>vec2\<close>, \<open>vec3\<close>, \<open>vec4\<close> and \<open>mat4\<close> of
  \<open>framework.h\<close>. In the geometry and in the shaders a \<open>float\<close> is read as a real number,
  so a property proved there is the exact law that the floating-point program
  approximates; inputs on which the program would produce an infinity or a NaN are
  kept out by explicit hypotheses. Where rounding decides how often a loop runs, in the
  idle callback, the \<open>float\<close> operations are rounded to single precision. The 32-bit
  counters of the tessellation are modelled with their width.
\<close>

text \<open>Modelled from the spec: the header's two-component vector with its componentwise
  operators (\<open>vec2 + vec2\<close>, \<open>vec2 - vec2\<close>, \<open>float * vec2\<close>, \<open>vec2 * float\<close>,
  \<open>vec2 / float\<close>).\<close>

datatype vec2 = vec2 (v2x: real) (v2y: real)

definition vec2_add :: "vec2 \<Rightarrow> vec2 \<Rightarrow> vec2" where
  "vec2_add a b = vec2 (v2x a + v2x b) (v2y a + v2y b)"

definition vec2_sub :: "vec2 \<Rightarrow> vec2 \<Rightarrow> vec2" where
  "vec2_sub a b = vec2 (v2x a - v2x b) (v2y a - v2y b)"

definition vec2_scale :: "real \<Rightarrow> vec2 \<Rightarrow> vec2" where
  "vec2_scale a v = vec2 (a * v2x v) (a * v2y v)"

definition vec2_times :: "vec2 \<Rightarrow> real \<Rightarrow> vec2" where
  "vec2_times v a = vec2 (v2x v * a) (v2y v * a)"

definition vec2_div :: "vec2 \<Rightarrow> real \<Rightarrow> vec2" where
  "vec2_div v a = vec2 (v2x v / a) (v2y v / a)"

section \<open>Dual numbers\<close>

text \<open>\<open>Dnum<vec2>\<close>, the only instance of the template: a function value \<open>f\<close> and the
  pair \<open>d\<close> of its derivatives.\<close>

datatype Dnum2 = Dnum (f: real) (d: vec2)

text \<open>The constructor's defaults: \<open>Dnum(float f0 = 0, T d0 = T(0))\<close>. A \<open>float\<close> operand
  of a dual-number operator is converted by it.\<close>

definition Dnum_of_float :: "real \<Rightarrow> Dnum2" where
  "Dnum_of_float f0 = Dnum f0 (vec2 0 0)"

definition Dnum_plus :: "Dnum2 \<Rightarrow> Dnum2 \<Rightarrow> Dnum2" where
  "Dnum_plus l r = Dnum (f l + f r) (vec2_add (d l) (d r))"

definition Dnum_minus :: "Dnum2 \<Rightarrow> Dnum2 \<Rightarrow> Dnum2" where
  "Dnum_minus l r = Dnum (f l - f r) (vec2_sub (d l) (d r))"

definition Dnum_times :: "Dnum2 \<Rightarrow> Dnum2 \<Rightarrow> Dnum2" where
  "Dnum_times l r = Dnum (f l * f r) (vec2_add (vec2_scale (f l) (d r)) (vec2_times (d l) (f r)))"

definition Dnum_divide :: "Dnum2 \<Rightarrow> Dnum2 \<Rightarrow> Dnum2" where
  "Dnum_divide l r =
     Dnum (f l / f r)
          (vec2_div (vec2_div (vec2_sub (vec2_scale (f r) (d l)) (vec2_times (d r) (f l))) (f r)) (f r))"

text \<open>\<open>powf\<close> where its result is a number: the real power of a positive base, and the
  whole-number power of any other base when the exponent is a whole number. (Elsewhere
  \<open>powf\<close> yields a NaN or an infinity, which the reals do not have.)\<close>

definition powf :: "real \<Rightarrow> real \<Rightarrow> real" where
  "powf x y =
     (if 0 < x then x powr y
      else if y = real_of_int \<lfloor>y\<rfloor> then x powi \<lfloor>y\<rfloor>
      else x powr y)"

text \<open>The elementary functions.\<close>

definition Exp :: "Dnum2 \<Rightarrow> Dnum2" where
  "Exp g = Dnum (exp (f g)) (vec2_scale (exp (f g)) (d g))"

definition Sin :: "Dnum2 \<Rightarrow> Dnum2" where
  "Sin g = Dnum (sin (f g)) (vec2_scale (cos (f g)) (d g))"

definition Cos :: "Dnum2 \<Rightarrow> Dnum2" where
  "Cos g = Dnum (cos (f g)) (vec2_scale (- sin (f g)) (d g))"

definition Tan :: "Dnum2 \<Rightarrow> Dnum2" where
  "Tan g = Dnum_divide (Sin g) (Cos g)"

definition Sinh :: "Dnum2 \<Rightarrow> Dnum2" where
  "Sinh g = Dnum (sinh (f g)) (vec2_scale (cosh (f g)) (d g))"

definition Cosh :: "Dnum2 \<Rightarrow> Dnum2" where
  "Cosh g = Dnum (cosh (f g)) (vec2_scale (sinh (f g)) (d g))"

definition Tanh :: "Dnum2 \<Rightarrow> Dnum2" where
  "Tanh g = Dnum_divide (Sinh g) (Cosh g)"

definition Log :: "Dnum2 \<Rightarrow> Dnum2" where
  "Log g = Dnum (ln (f g)) (vec2_div (d g) (f g))"

definition Pow :: "Dnum2 \<Rightarrow> real \<Rightarrow> Dnum2" where
  "Pow g n = Dnum (powf (f g) n) (vec2_scale (n * powf (f g) (n - 1)) (d g))"

subsection \<open>Compositions of the operators\<close>

text \<open>A composition of the operators and elementary functions over the two surface
  parameters is a term of \<open>expr\<close>. \<open>dual\<close> runs it on the program's dual numbers,
  \<open>scalar\<close> is the real function of \<open>(u, v)\<close> that it denotes, and \<open>smooth_at\<close> says
  that at \<open>(u, v)\<close> no divisor is zero, no tangent is taken at a pole, every argument of a
  logarithm is positive, and every power has a positive base or else a whole-number
  exponent with a base other than zero or an exponent of at least 1.\<close>

datatype expr =
    ParamU
  | ParamV
  | Const real
  | Plus expr expr
  | Minus expr expr
  | Times expr expr
  | Over expr expr
  | ExpOf expr
  | SinOf expr
  | CosOf expr
  | TanOf expr
  | SinhOf expr
  | CoshOf expr
  | TanhOf expr
  | LogOf expr
  | PowOf expr real

fun dual :: "expr \<Rightarrow> Dnum2 \<Rightarrow> Dnum2 \<Rightarrow> Dnum2" where
  "dual ParamU U V = U"
| "dual ParamV U V = V"
| "dual (Const c) U V = Dnum_of_float c"
| "dual (Plus a b) U V = Dnum_plus (dual a U V) (dual b U V)"
| "dual (Minus a b) U V = Dnum_minus (dual a U V) (dual b U V)"
| "dual (Times a b) U V = Dnum_times (dual a U V) (dual b U V)"
| "dual (Over a b) U V = Dnum_divide (dual a U V) (dual b U V)"
| "dual (ExpOf a) U V = Exp (dual a U V)"
| "dual (SinOf a) U V = Sin (dual a U V)"
| "dual (CosOf a) U V = Cos (dual a U V)"
| "dual (TanOf a) U V = Tan (dual a U V)"
| "dual (SinhOf a) U V = Sinh (dual a U V)"
| "dual (CoshOf a) U V = Cosh (dual a U V)"
| "dual (TanhOf a) U V = Tanh (dual a U V)"
| "dual (LogOf a) U V = Log (dual a U V)"
| "dual (PowOf a n) U V = Pow (dual a U V) n"

fun scalar :: "expr \<Rightarrow> real \<Rightarrow> real \<Rightarrow> real" where
  "scalar ParamU u v = u"
| "scalar ParamV u v = v"
| "scalar (Const c) u v = c"
| "scalar (Plus a b) u v = scalar a u v + scalar b u v"
| "scalar (Minus a b) u v = scalar a u v - scalar b u v"
| "scalar (Times a b) u v = scalar a u v * scalar b u v"
| "scalar (Over a b) u v = scalar a u v / scalar b u v"
| "scalar (ExpOf a) u v = exp (scalar a u v)"
| "scalar (SinOf a) u v = sin (scalar a u v)"
| "scalar (CosOf a) u v = cos (scalar a u v)"
| "scalar (TanOf a) u v = tan (scalar a u v)"
| "scalar (SinhOf a) u v = sinh (scalar a u v)"
| "scalar (CoshOf a) u v = cosh (scalar a u v)"
| "scalar (TanhOf a) u v = tanh (scalar a u v)"
| "scalar (LogOf a) u v = ln (scalar a u v)"
| "scalar (PowOf a n) u v = powf (scalar a u v) n"

fun smooth_at :: "expr \<Rightarrow> real \<Rightarrow> real \<Rightarrow> bool" where
  "smooth_at ParamU u v = True"
| "smooth_at ParamV u v = True"
| "smooth_at (Const c) u v = True"
| "smooth_at (Plus a b) u v = (smooth_at a u v \<and> smooth_at b u v)"
| "smooth_at (Minus a b) u v = (smooth_at a u v \<and> smooth_at b u v)"
| "smooth_at (Times a b) u v = (smooth_at a u v \<and> smooth_at b u v)"
| "smooth_at (Over a b) u v = (smooth_at a u v \<and> smooth_at b u v \<and> scalar b u v \<noteq> 0)"
| "smooth_at (ExpOf a) u v = smooth_at a u v"
| "smooth_at (SinOf a) u v = smooth_at a u v"
| "smooth_at (CosOf a) u v = smooth_at a u v"
| "smooth_at (TanOf a) u v = (smooth_at a u v \<and> cos (scalar a u v) \<noteq> 0)"
| "smooth_at (SinhOf a) u v = smooth_at a u v"
| "smooth_at (CoshOf a) u v = smooth_at a u v"
| "smooth_at (TanhOf a) u v = smooth_at a u v"
| "smooth_at (LogOf a) u v = (smooth_at a u v \<and> 0 < scalar a u v)"
| "smooth_at (PowOf a n) u v =
     (smooth_at a u v
      \<and> (0 < scalar a u v
         \<or> n = real_of_int \<lfloor>n\<rfloor> \<and> (scalar a u v \<noteq> 0 \<or> 1 \<le> n)))"

text \<open>The seeds of \<open>GenVertexData\<close>: \<open>U(u, vec2(1, 0))\<close> and \<open>V(v, vec2(0, 1))\<close>.\<close>

definition seedU :: "real \<Rightarrow> Dnum2" where
  "seedU u = Dnum u (vec2 1 0)"

definition seedV :: "real \<Rightarrow> Dnum2" where
  "seedV v = Dnum v (vec2 0 1)"


section \<open>Three- and four-component vectors, matrices\<close>

text \<open>Modelled from the spec: the header's \<open>vec3\<close> with its componentwise operators and
  the functions \<open>dot\<close>, \<open>length\<close>, \<open>normalize\<close> and \<open>cross\<close> (the names \<open>length\<close> and
  \<open>normalize\<close> are taken in HOL, hence the suffix).\<close>

datatype vec3 = vec3 (v3x: real) (v3y: real) (v3z: real)

definition vec3_add :: "vec3 \<Rightarrow> vec3 \<Rightarrow> vec3" where
  "vec3_add a b = vec3 (v3x a + v3x b) (v3y a + v3y b) (v3z a + v3z b)"

definition vec3_sub :: "vec3 \<Rightarrow> vec3 \<Rightarrow> vec3" where
  "vec3_sub a b = vec3 (v3x a - v3x b) (v3y a - v3y b) (v3z a - v3z b)"

definition vec3_neg :: "vec3 \<Rightarrow> vec3" where
  "vec3_neg a = vec3 (- v3x a) (- v3y a) (- v3z a)"

definition vec3_times :: "vec3 \<Rightarrow> real \<Rightarrow> vec3" where
  "vec3_times v a = vec3 (v3x v * a) (v3y v * a) (v3z v * a)"

definition vec3_mul :: "vec3 \<Rightarrow> vec3 \<Rightarrow> vec3" where
  "vec3_mul a b = vec3 (v3x a * v3x b) (v3y a * v3y b) (v3z a * v3z b)"

definition dot :: "vec3 \<Rightarrow> vec3 \<Rightarrow> real" where
  "dot v1 v2 = v3x v1 * v3x v2 + v3y v1 * v3y v2 + v3z v1 * v3z v2"

definition length3 :: "vec3 \<Rightarrow> real" where
  "length3 v = sqrt (dot v v)"

definition normalize3 :: "vec3 \<Rightarrow> vec3" where
  "normalize3 v = vec3_times v (1 / length3 v)"

definition cross :: "vec3 \<Rightarrow> vec3 \<Rightarrow> vec3" where
  "cross v1 v2 =
     vec3 (v3y v1 * v3z v2 - v3z v1 * v3y v2)
          (v3z v1 * v3x v2 - v3x v1 * v3z v2)
          (v3x v1 * v3y v2 - v3y v1 * v3x v2)"

text \<open>Modelled from the spec: the header's \<open>vec4\<close> and the row-major \<open>mat4\<close>. A point is a
  row vector and is transformed by \<open>vec4 * mat4\<close>, as in \<open>vec4(0, 0, 0, 1) * M\<close> of
  \<open>onDisplay\<close>; the product of two matrices transforms by the left one first.\<close>

datatype vec4 = vec4 (v4x: real) (v4y: real) (v4z: real) (v4w: real)

definition xyz :: "vec4 \<Rightarrow> vec3" where
  "xyz v = vec3 (v4x v) (v4y v) (v4z v)"

definition vec4_add :: "vec4 \<Rightarrow> vec4 \<Rightarrow> vec4" where
  "vec4_add a b = vec4 (v4x a + v4x b) (v4y a + v4y b) (v4z a + v4z b) (v4w a + v4w b)"

definition vec4_scale :: "real \<Rightarrow> vec4 \<Rightarrow> vec4" where
  "vec4_scale a v = vec4 (a * v4x v) (a * v4y v) (a * v4z v) (a * v4w v)"

datatype mat4 = mat4_rows (row0: vec4) (row1: vec4) (row2: vec4) (row3: vec4)

definition mat4 ::
  "real \<Rightarrow> real \<Rightarrow> real \<Rightarrow> real \<Rightarrow> real \<Rightarrow> real \<Rightarrow> real \<Rightarrow> real \<Rightarrow>
   real \<Rightarrow> real \<Rightarrow> real \<Rightarrow> real \<Rightarrow> real \<Rightarrow> real \<Rightarrow> real \<Rightarrow> real \<Rightarrow> mat4" where
  "mat4 m00 m01 m02 m03 m10 m11 m12 m13 m20 m21 m22 m23 m30 m31 m32 m33 =
     mat4_rows (vec4 m00 m01 m02 m03) (vec4 m10 m11 m12 m13)
               (vec4 m20 m21 m22 m23) (vec4 m30 m31 m32 m33)"

definition vec4_mat4 :: "vec4 \<Rightarrow> mat4 \<Rightarrow> vec4" where
  "vec4_mat4 v m =
     vec4_add (vec4_add (vec4_add (vec4_scale (v4x v) (row0 m)) (vec4_scale (v4y v) (row1 m)))
                        (vec4_scale (v4z v) (row2 m)))
              (vec4_scale (v4w v) (row3 m))"

definition mat4_mul :: "mat4 \<Rightarrow> mat4 \<Rightarrow> mat4" where
  "mat4_mul l r =
     mat4_rows (vec4_mat4 (row0 l) r) (vec4_mat4 (row1 l) r)
               (vec4_mat4 (row2 l) r) (vec4_mat4 (row3 l) r)"

definition identity4 :: mat4 where
  "identity4 = mat4 1 0 0 0  0 1 0 0  0 0 1 0  0 0 0 1"

text \<open>Modelled from the spec: \<open>TranslateMatrix\<close> and \<open>ScaleMatrix\<close> of the header, for row
  vectors: the translation is the last row.\<close>

definition TranslateMatrix :: "vec3 \<Rightarrow> mat4" where
  "TranslateMatrix t = mat4 1 0 0 0  0 1 0 0  0 0 1 0  (v3x t) (v3y t) (v3z t) 1"

definition ScaleMatrix :: "vec3 \<Rightarrow> mat4" where
  "ScaleMatrix s = mat4 (v3x s) 0 0 0  0 (v3y s) 0 0  0 0 (v3z s) 0  0 0 0 1"

section \<open>Errors and machine integers\<close>

text \<open>What C++ leaves undefined is an error here: an access to a vector outside its
  bounds, and an \<open>int\<close> operation whose result is not an \<open>int\<close>.\<close>

datatype error = OutOfBounds | SignedOverflow

text \<open>\<open>int32 x\<close>: the number \<open>x\<close> is a value of the 32-bit type \<open>int\<close>. An \<open>unsigned int\<close> is a
  \<open>32 word\<close>, whose arithmetic wraps around; \<open>word_of_int\<close> is the conversion from
  \<open>int\<close>, \<open>sint\<close> the conversion to \<open>GLint\<close> and \<open>GLsizei\<close>, \<open>unat\<close> the conversion to
  \<open>size_t\<close>.\<close>

definition int32 :: "int \<Rightarrow> bool" where
  "int32 x = (- (2 ^ 31) \<le> x \<and> x < 2 ^ 31)"

section \<open>Parametric surfaces\<close>

record VertexData =
  position :: vec3
  normal :: vec3
  texcoord :: vec2

text \<open>\<open>eval\<close> is a virtual function over five reference parameters \<open>U, V, X, Y, Z\<close>: it
  receives their values and leaves new ones.\<close>

type_synonym eval_refs = "Dnum2 \<times> Dnum2 \<times> Dnum2 \<times> Dnum2 \<times> Dnum2"

definition GenVertexData :: "(eval_refs \<Rightarrow> eval_refs) \<Rightarrow> real \<Rightarrow> real \<Rightarrow> VertexData" where
  "GenVertexData eval u v =
     (case eval (seedU u, seedV v, Dnum_of_float 0, Dnum_of_float 0, Dnum_of_float 0) of
        (U, V, X, Y, Z) \<Rightarrow>
          (let drdU = vec3 (v2x (d X)) (v2x (d Y)) (v2x (d Z));
               drdV = vec3 (v2y (d X)) (v2y (d Y)) (v2y (d Z))
           in \<lparr>position = vec3 (f X) (f Y) (f Z), normal = cross drdU drdV,
               texcoord = vec2 u v\<rparr>))"

definition Sphere_eval :: "eval_refs \<Rightarrow> eval_refs" where
  "Sphere_eval = (\<lambda>(U, V, X, Y, Z).
     (let U1 = Dnum_times (Dnum_times U (Dnum_of_float 2)) (Dnum_of_float pi);
          V1 = Dnum_times V (Dnum_of_float pi)
      in (U1, V1, Dnum_times (Cos U1) (Sin V1), Dnum_times (Sin U1) (Sin V1), Cos V1)))"

text \<open>The GPU calls that the program issues are collected in the order of issue.\<close>

datatype uniform_value =
    UMat4 mat4
  | UVec3 vec3
  | UVec4 vec4
  | UFloat real
  | UInt int
  | USampler nat

datatype Shader = GouraudShader | PhongShader | NPRShader

datatype gpu_call =
    Use Shader
  | setUniform uniform_value string
  | glBindVertexArray nat
  | glDrawArrays_TRIANGLE_STRIP int int

text \<open>A \<open>ParamSurface\<close> with the \<open>vao\<close> and \<open>vbo\<close> of its base class; \<open>buffer\<close> is the
  content that \<open>glBufferData\<close> has copied to the GPU.\<close>

record ParamSurface =
  vao :: nat
  vbo :: nat
  nVtxPerStrip :: "32 word"
  nStrips :: "32 word"
  buffer :: "VertexData list"

definition tessellationLevel :: int where
  "tessellationLevel = 20"

text \<open>The inner loop \<open>for (int j = 0; j <= M; j++)\<close>. The increment overflows when
  \<open>j\<close> is the largest \<open>int\<close>. (\<open>i + 1\<close> cannot: \<open>i < N\<close> holds where it is computed.)\<close>

function create_row ::
  "(eval_refs \<Rightarrow> eval_refs) \<Rightarrow> int \<Rightarrow> int \<Rightarrow> int \<Rightarrow> int \<Rightarrow> VertexData list
     \<Rightarrow> error + VertexData list" where
  "create_row eval N M i j vtxData =
     (if j \<le> M
      then (if int32 (j + 1)
            then create_row eval N M i (j + 1)
                   (vtxData @ [GenVertexData eval (real_of_int j / real_of_int M)
                                                  (real_of_int i / real_of_int N),
                               GenVertexData eval (real_of_int j / real_of_int M)
                                                  (real_of_int (i + 1) / real_of_int N)])
            else Inl SignedOverflow)
      else Inr vtxData)"
  by pat_completeness auto
termination
  by (relation "measure (\<lambda>(eval, N, M, i, j, vtxData). nat (M + 1 - j))") auto

declare create_row.simps [simp del]

text \<open>The outer loop \<open>for (int i = 0; i < N; i++)\<close>.\<close>

function create_rows ::
  "(eval_refs \<Rightarrow> eval_refs) \<Rightarrow> int \<Rightarrow> int \<Rightarrow> int \<Rightarrow> VertexData list
     \<Rightarrow> error + VertexData list" where
  "create_rows eval N M i vtxData =
     (if i < N
      then (case create_row eval N M i 0 vtxData of
              Inl e \<Rightarrow> Inl e
            | Inr vtxData \<Rightarrow> create_rows eval N M (i + 1) vtxData)
      else Inr vtxData)"
  by pat_completeness auto
termination
  by (relation "measure (\<lambda>(eval, N, M, i, vtxData). nat (N - i))") auto

declare create_rows.simps [simp del]

text \<open>The two vertices that one pass of the inner loop appends, and the strip that one
  pass of the outer loop appends.\<close>

definition strip_pair ::
  "(eval_refs \<Rightarrow> eval_refs) \<Rightarrow> int \<Rightarrow> int \<Rightarrow> int \<Rightarrow> int \<Rightarrow> VertexData list" where
  "strip_pair eval N M i j =
     [GenVertexData eval (real_of_int j / real_of_int M) (real_of_int i / real_of_int N),
      GenVertexData eval (real_of_int j / real_of_int M) (real_of_int (i + 1) / real_of_int N)]"

definition strip :: "(eval_refs \<Rightarrow> eval_refs) \<Rightarrow> int \<Rightarrow> int \<Rightarrow> int \<Rightarrow> VertexData list" where
  "strip eval N M i = concat (map (strip_pair eval N M i) [0..M])"

text \<open>\<open>create(N, M)\<close>. \<open>(M + 1) * 2\<close> is computed in \<open>int\<close> and stored as \<open>unsigned int\<close>. The
  number of vertices uploaded is the \<open>unsigned int\<close> product \<open>nVtxPerStrip * nStrips\<close>,
  widened to \<open>size_t\<close> only afterwards; \<open>&vtxData[0]\<close> needs a first element.\<close>

definition create ::
  "(eval_refs \<Rightarrow> eval_refs) \<Rightarrow> int \<Rightarrow> int \<Rightarrow> ParamSurface \<Rightarrow> error + ParamSurface" where
  "create eval N M this =
     (if \<not> int32 (M + 1) \<or> \<not> int32 ((M + 1) * 2) then Inl SignedOverflow
      else
        (let this = this\<lparr>nVtxPerStrip := word_of_int ((M + 1) * 2)\<rparr>;
             this = this\<lparr>nStrips := word_of_int N\<rparr>
         in case create_rows eval N M 0 [] of
              Inl e \<Rightarrow> Inl e
            | Inr vtxData \<Rightarrow>
                (if vtxData = [] then Inl OutOfBounds
                 else Inr (this\<lparr>buffer :=
                             take (unat (nVtxPerStrip this * nStrips this)) vtxData\<rparr>))))"

text \<open>The loop of \<open>Draw\<close> over the \<open>unsigned int i\<close>; \<open>i * nVtxPerStrip\<close> wraps around before
  it is passed as the \<open>GLint first\<close>.\<close>

function Draw_strips :: "ParamSurface \<Rightarrow> 32 word \<Rightarrow> gpu_call list \<Rightarrow> gpu_call list" where
  "Draw_strips this i calls =
     (if i < nStrips this
      then Draw_strips this (i + 1)
             (calls @ [glDrawArrays_TRIANGLE_STRIP (sint (i * nVtxPerStrip this))
                                                    (sint (nVtxPerStrip this))])
      else calls)"
  by pat_completeness auto
termination
proof (relation "measure (\<lambda>(this, i, calls). unat (nStrips this) - unat i)")
  show "wf (measure (\<lambda>(this, i, calls). unat (nStrips this) - unat i))"
    by simp
next
  fix this :: ParamSurface and i :: "32 word" and calls :: "gpu_call list"
  assume "i < nStrips this"
  then have less: "unat i < unat (nStrips this)"
    by (simp add: word_less_nat_alt)
  moreover have "unat (nStrips this) < 2 ^ 32"
    using unsigned_less[of "nStrips this"] by simp
  ultimately have "unat i + 1 < 2 ^ LENGTH(32)"
    by simp
  then have "unat (i + 1) = unat i + unat (1 :: 32 word)"
    by (simp add: unat_add_lem[THEN iffD1])
  with less show "((this, i + 1,
        calls @ [glDrawArrays_TRIANGLE_STRIP (sint (i * nVtxPerStrip this))
                                             (sint (nVtxPerStrip this))]),
       (this, i, calls)) \<in> measure (\<lambda>(this, i, calls). unat (nStrips this) - unat i)"
    by simp
qed

declare Draw_strips.simps [simp del]

definition Draw :: "ParamSurface \<Rightarrow> gpu_call list" where
  "Draw this = Draw_strips this 0 [glBindVertexArray (vao this)]"

section \<open>Materials, lights and the render state\<close>

record Material =
  kd :: vec3
  ks :: vec3
  ka :: vec3
  shininess :: real

record Light =
  La :: vec3
  Le :: vec3
  wLightPos :: vec4

text \<open>The fields of \<open>RenderState\<close> carry the prefix \<open>st_\<close>. A \<open>Material *\<close> is read as the
  material it points to and a \<open>Texture *\<close> as the id of the texture: the program never
  changes either after the scene is built.\<close>

record RenderState =
  st_MVP :: mat4
  st_M :: mat4
  st_Minv :: mat4
  st_V :: mat4
  st_P :: mat4
  st_material :: Material
  st_lights :: "Light list"
  st_texture :: nat
  st_wEye :: vec3

section \<open>The shader programs\<close>

subsection \<open>Vertex stage: the light vector\<close>

text \<open>The expression \<open>wLightPos.xyz * wPos.w - wPos.xyz * wLightPos.w\<close>, which the three
  vertex shaders share.\<close>

definition light_vector :: "vec4 \<Rightarrow> vec4 \<Rightarrow> vec3" where
  "light_vector lightPos wPos =
     vec3_sub (vec3_times (xyz lightPos) (v4w wPos)) (vec3_times (xyz wPos) (v4w lightPos))"

text \<open>\<open>vec4 wPos = vec4(vtxPos, 1) * M\<close>.\<close>

definition vertex_wPos :: "vec3 \<Rightarrow> mat4 \<Rightarrow> vec4" where
  "vertex_wPos vtxPos M = vec4_mat4 (vec4 (v3x vtxPos) (v3y vtxPos) (v3z vtxPos) 1) M"

text \<open>The loop of the Phong vertex shader, \<open>wLight[i] = \<dots>\<close> for \<open>i < nLights\<close>.\<close>

function Phong_vertex_wLight :: "Light list \<Rightarrow> nat \<Rightarrow> vec4 \<Rightarrow> nat \<Rightarrow> vec3 list \<Rightarrow> vec3 list" where
  "Phong_vertex_wLight lights nLights wPos i wLight =
     (if i < nLights
      then Phong_vertex_wLight lights nLights wPos (i + 1)
             (wLight[i := light_vector (wLightPos (lights ! i)) wPos])
      else wLight)"
  by pat_completeness auto
termination
  by (relation "measure (\<lambda>(lights, nLights, wPos, i, wLight). nLights - i)") auto

declare Phong_vertex_wLight.simps [simp del]

text \<open>The NPR vertex shader has the one light \<open>wLightPos\<close>; the Gouraud vertex shader
  normalizes the vector at once.\<close>

definition NPR_vertex_wLight :: "vec4 \<Rightarrow> vec4 \<Rightarrow> vec3" where
  "NPR_vertex_wLight lightPos wPos = light_vector lightPos wPos"

definition Gouraud_vertex_L :: "vec4 \<Rightarrow> vec4 \<Rightarrow> vec3" where
  "Gouraud_vertex_L lightPos wPos = normalize3 (light_vector lightPos wPos)"

subsection \<open>Fragment stage of the Phong shader\<close>

text \<open>What one pass of the loop over the lights adds to \<open>radiance\<close>. \<open>texColor\<close> is
  \<open>texture(diffuseTexture, texcoord).rgb\<close>; the product of two \<open>vec3\<close> is componentwise;
  \<open>pow\<close> is read as \<open>powr\<close>, its base \<open>cosd\<close> is never negative.\<close>

definition Phong_fragment_term :: "Material \<Rightarrow> vec3 \<Rightarrow> vec3 \<Rightarrow> vec3 \<Rightarrow> Light \<Rightarrow> vec3 \<Rightarrow> vec3" where
  "Phong_fragment_term material texColor N V light wLight_i =
     (let ka' = vec3_mul (ka material) texColor;
          kd' = vec3_mul (kd material) texColor;
          L = normalize3 wLight_i;
          H = normalize3 (vec3_add L V);
          cost = max (dot N L) 0;
          cosd = max (dot N H) 0
      in vec3_add (vec3_mul ka' (La light))
           (vec3_mul (vec3_add (vec3_times (vec3_mul kd' texColor) cost)
                               (vec3_times (ks material) (cosd powr shininess material)))
                     (Le light)))"

function Phong_fragment_loop ::
  "Material \<Rightarrow> Light list \<Rightarrow> nat \<Rightarrow> vec3 \<Rightarrow> vec3 \<Rightarrow> vec3 \<Rightarrow> vec3 list \<Rightarrow> nat \<Rightarrow> vec3 \<Rightarrow> vec3" where
  "Phong_fragment_loop material lights nLights texColor N V wLight i radiance =
     (if i < nLights
      then Phong_fragment_loop material lights nLights texColor N V wLight (i + 1)
             (vec3_add radiance
                (Phong_fragment_term material texColor N V (lights ! i) (wLight ! i)))
      else radiance)"
  by pat_completeness auto
termination
  by (relation "measure (\<lambda>(material, lights, nLights, texColor, N, V, wLight, i, radiance).
                            nLights - i)") auto

declare Phong_fragment_loop.simps [simp del]

definition Phong_fragment ::
  "Material \<Rightarrow> Light list \<Rightarrow> nat \<Rightarrow> (vec2 \<Rightarrow> vec4) \<Rightarrow> vec3 \<Rightarrow> vec3 \<Rightarrow> vec3 list \<Rightarrow> vec2 \<Rightarrow> vec4" where
  "Phong_fragment material lights nLights diffuseTexture wNormal wView wLight frag_texcoord =
     (let N = normalize3 wNormal;
          V = normalize3 wView;
          N = (if dot N V < 0 then vec3_neg N else N);
          texColor = xyz (diffuseTexture frag_texcoord);
          radiance = Phong_fragment_loop material lights nLights texColor N V wLight 0 (vec3 0 0 0)
      in vec4 (v3x radiance) (v3y radiance) (v3z radiance) 1)"

text \<open>The lighting sum in the words of the specification:
  \<open>ka * La + (kd * cos\<theta> + ks * cos\<phi> ^ shininess) * Le\<close> summed over the active lights,
  with \<open>cos\<theta> = max(N\<cdot>L, 0)\<close>, \<open>cos\<phi> = max(N\<cdot>H, 0)\<close>, and with \<open>ka\<close> and \<open>kd\<close> the
  material coefficients multiplied once by the texture colour.\<close>

definition Phong_Blinn_term :: "Material \<Rightarrow> vec3 \<Rightarrow> vec3 \<Rightarrow> vec3 \<Rightarrow> Light \<Rightarrow> vec3 \<Rightarrow> vec3" where
  "Phong_Blinn_term material texColor N V light wLight_i =
     (let L = normalize3 wLight_i;
          H = normalize3 (vec3_add L V);
          cost = max (dot N L) 0;
          cosd = max (dot N H) 0
      in vec3_add (vec3_mul (vec3_mul (ka material) texColor) (La light))
           (vec3_mul (vec3_add (vec3_times (vec3_mul (kd material) texColor) cost)
                               (vec3_times (ks material) (cosd powr shininess material)))
                     (Le light)))"

fun Phong_Blinn_sum :: "Material \<Rightarrow> vec3 \<Rightarrow> vec3 \<Rightarrow> vec3 \<Rightarrow> (Light \<times> vec3) list \<Rightarrow> vec3" where
  "Phong_Blinn_sum material texColor N V [] = vec3 0 0 0"
| "Phong_Blinn_sum material texColor N V ((light, wLight_i) # rest) =
     vec3_add (Phong_Blinn_term material texColor N V light wLight_i)
              (Phong_Blinn_sum material texColor N V rest)"

subsection \<open>Binding a render state\<close>

definition digit :: "nat \<Rightarrow> char" where
  "digit n = char_of (48 + n)"

function to_string :: "nat \<Rightarrow> string" where
  "to_string n = (if n < 10 then [digit n] else to_string (n div 10) @ [digit (n mod 10)])"
  by pat_completeness auto
termination
  by (relation "measure (\<lambda>n. n)") auto

declare to_string.simps [simp del]

definition setUniformMaterial :: "Material \<Rightarrow> string \<Rightarrow> gpu_call list" where
  "setUniformMaterial material name =
     [setUniform (UVec3 (kd material)) (name @ ''.kd''),
      setUniform (UVec3 (ks material)) (name @ ''.ks''),
      setUniform (UVec3 (ka material)) (name @ ''.ka''),
      setUniform (UFloat (shininess material)) (name @ ''.shininess'')]"

definition setUniformLight :: "Light \<Rightarrow> string \<Rightarrow> gpu_call list" where
  "setUniformLight light name =
     [setUniform (UVec3 (La light)) (name @ ''.La''),
      setUniform (UVec3 (Le light)) (name @ ''.Le''),
      setUniform (UVec4 (wLightPos light)) (name @ ''.wLightPos'')]"

function Bind_lights :: "Light list \<Rightarrow> nat \<Rightarrow> gpu_call list \<Rightarrow> gpu_call list" where
  "Bind_lights lights i calls =
     (if i < length lights
      then Bind_lights lights (i + 1)
             (calls @ setUniformLight (lights ! i) (''lights['' @ to_string i @ '']''))
      else calls)"
  by pat_completeness auto
termination
  by (relation "measure (\<lambda>(lights, i, calls). length lights - i)") auto

declare Bind_lights.simps [simp del]

definition GouraudShader_Bind :: "RenderState \<Rightarrow> gpu_call list" where
  "GouraudShader_Bind state =
     Bind_lights (st_lights state) 0
       ([Use GouraudShader,
         setUniform (UMat4 (st_MVP state)) ''MVP'',
         setUniform (UMat4 (st_M state)) ''M'',
         setUniform (UMat4 (st_Minv state)) ''Minv'',
         setUniform (UVec3 (st_wEye state)) ''wEye'']
        @ setUniformMaterial (st_material state) ''material''
        @ [setUniform (UInt (int (length (st_lights state)))) ''nLights''])"

definition PhongShader_Bind :: "RenderState \<Rightarrow> gpu_call list" where
  "PhongShader_Bind state =
     Bind_lights (st_lights state) 0
       ([Use PhongShader,
         setUniform (UMat4 (st_MVP state)) ''MVP'',
         setUniform (UMat4 (st_M state)) ''M'',
         setUniform (UMat4 (st_Minv state)) ''Minv'',
         setUniform (UVec3 (st_wEye state)) ''wEye'',
         setUniform (USampler (st_texture state)) ''diffuseTexture'']
        @ setUniformMaterial (st_material state) ''material''
        @ [setUniform (UInt (int (length (st_lights state)))) ''nLights''])"

text \<open>\<open>state.lights[0]\<close> on an empty vector is an access out of bounds, which C++ leaves
  undefined; here it is the error \<open>OutOfBounds\<close>.\<close>

definition NPRShader_Bind :: "RenderState \<Rightarrow> error + gpu_call list" where
  "NPRShader_Bind state =
     (if 0 < length (st_lights state)
      then Inr [Use NPRShader,
                setUniform (UMat4 (st_MVP state)) ''MVP'',
                setUniform (UMat4 (st_M state)) ''M'',
                setUniform (UMat4 (st_Minv state)) ''Minv'',
                setUniform (UVec3 (st_wEye state)) ''wEye'',
                setUniform (USampler (st_texture state)) ''diffuseTexture'',
                setUniform (UVec4 (wLightPos (st_lights state ! 0))) ''wLightPos'']
      else Inl OutOfBounds)"

fun Bind :: "Shader \<Rightarrow> RenderState \<Rightarrow> error + gpu_call list" where
  "Bind GouraudShader state = Inr (GouraudShader_Bind state)"
| "Bind PhongShader state = Inr (PhongShader_Bind state)"
| "Bind NPRShader state = NPRShader_Bind state"

section \<open>Objects, camera and scene\<close>

record Object =
  shader :: Shader
  material :: Material
  texture :: nat
  geometry :: ParamSurface
  scale :: vec3
  translation :: vec3
  rotationAxis :: vec3
  rotationAngle :: real

text \<open>The constructor of \<open>Object\<close>: unit scale, no translation, the zero vector as the
  rotation axis and a zero rotation angle.\<close>

definition Object_new :: "Shader \<Rightarrow> Material \<Rightarrow> nat \<Rightarrow> ParamSurface \<Rightarrow> Object" where
  "Object_new shader' material' texture' geometry' =
     \<lparr>shader = shader', material = material', texture = texture', geometry = geometry',
      scale = vec3 1 1 1, translation = vec3 0 0 0,
      rotationAxis = vec3 0 0 0, rotationAngle = 0\<rparr>"

text \<open>\<open>RotationMatrix\<close> of \<open>framework.h\<close> is a parameter of everything that builds a
  modeling transform. The result is the pair \<open>(M, Minv)\<close> left in the two reference
  parameters.\<close>

definition SetModelingTransform :: "(real \<Rightarrow> vec3 \<Rightarrow> mat4) \<Rightarrow> Object \<Rightarrow> mat4 \<times> mat4" where
  "SetModelingTransform RotationMatrix this =
     (mat4_mul (mat4_mul (ScaleMatrix (scale this))
                         (RotationMatrix (rotationAngle this) (rotationAxis this)))
               (TranslateMatrix (translation this)),
      mat4_mul (mat4_mul (TranslateMatrix (vec3_neg (translation this)))
                         (RotationMatrix (- rotationAngle this) (rotationAxis this)))
               (ScaleMatrix (vec3 (1 / v3x (scale this)) (1 / v3y (scale this))
                                  (1 / v3z (scale this)))))"

text \<open>Modelled from the spec: the axis-angle rotation of \<open>framework.h\<close>, which
  \<open>SetModelingTransform\<close> receives as \<open>RotationMatrix\<close>: the rotation by \<open>angle\<close> about the
  normalized axis, for row vectors.\<close>

definition axis_angle_rotation :: "real \<Rightarrow> vec3 \<Rightarrow> mat4" where
  "axis_angle_rotation angle w0 =
     (let c = cos angle; s = sin angle; w = normalize3 w0;
          wx = v3x w; wy = v3y w; wz = v3z w
      in mat4 (c * (1 - wx * wx) + wx * wx) (wx * wy * (1 - c) + wz * s) (wx * wz * (1 - c) - wy * s) 0
              (wx * wy * (1 - c) - wz * s) (c * (1 - wy * wy) + wy * wy) (wy * wz * (1 - c) + wx * s) 0
              (wx * wz * (1 - c) + wy * s) (wy * wz * (1 - c) - wx * s) (c * (1 - wz * wz) + wz * wz) 0
              0 0 0 1)"

text \<open>A matrix that maps points to points: its last column is \<open>(0, 0, 0, 1)\<close>.\<close>

definition affine :: "mat4 \<Rightarrow> bool" where
  "affine m = (v4w (row0 m) = 0 \<and> v4w (row1 m) = 0 \<and> v4w (row2 m) = 0 \<and> v4w (row3 m) = 1)"

text \<open>\<open>Object::Draw(RenderState state)\<close> works on its own copy of the caller's state. The
  record of a call holds the object and the caller's state as the call leaves them, the
  copy as it is handed to \<open>Bind\<close>, and the GPU calls issued.\<close>

record Draw_call =
  this_after :: Object
  caller_state_after :: RenderState
  bound_state :: RenderState
  gpu :: "error + gpu_call list"

definition Object_Draw :: "(real \<Rightarrow> vec3 \<Rightarrow> mat4) \<Rightarrow> Object \<Rightarrow> RenderState \<Rightarrow> Draw_call" where
  "Object_Draw RotationMatrix this caller_state =
     (let state = caller_state;
          (M, Minv) = SetModelingTransform RotationMatrix this;
          state = state\<lparr>st_M := M\<rparr>;
          state = state\<lparr>st_Minv := Minv\<rparr>;
          state = state\<lparr>st_MVP := mat4_mul (mat4_mul (st_M state) (st_V state)) (st_P state)\<rparr>;
          state = state\<lparr>st_material := material this\<rparr>;
          state = state\<lparr>st_texture := texture this\<rparr>
      in \<lparr>this_after = this, caller_state_after = caller_state, bound_state = state,
          gpu = (case Bind (shader this) state of
                   Inl e \<Rightarrow> Inl e
                 | Inr calls \<Rightarrow> Inr (calls @ Draw (geometry this)))\<rparr>)"

record Camera =
  wEye :: vec3
  wLookat :: vec3
  wVup :: vec3
  fov :: real
  asp :: real
  fp :: real
  bp :: real

definition Camera_V :: "Camera \<Rightarrow> mat4" where
  "Camera_V cam =
     (let w = normalize3 (vec3_sub (wEye cam) (wLookat cam));
          u = normalize3 (cross (wVup cam) w);
          v = cross w u
      in mat4_mul (TranslateMatrix (vec3_times (wEye cam) (- 1)))
                  (mat4 (v3x u) (v3x v) (v3x w) 0
                        (v3y u) (v3y v) (v3y w) 0
                        (v3z u) (v3z v) (v3z w) 0
                        0 0 0 1))"

definition Camera_P :: "Camera \<Rightarrow> mat4" where
  "Camera_P cam =
     mat4 (1 / (tan (fov cam / 2) * asp cam)) 0 0 0
          0 (1 / tan (fov cam / 2)) 0 0
          0 0 (- (fp cam + bp cam) / (bp cam - fp cam)) (- 1)
          0 0 (- 2 * fp cam * bp cam / (bp cam - fp cam)) 0"

record Scene =
  objects :: "Object list"
  camera :: Camera
  lights :: "Light list"

text \<open>The loop \<open>for (Object * obj : objects) obj->Draw(state)\<close>: each call receives the
  caller's variable \<open>state\<close> as the call before left it. An error ends the traversal.\<close>

fun Render_objects ::
  "(real \<Rightarrow> vec3 \<Rightarrow> mat4) \<Rightarrow> Object list \<Rightarrow> RenderState \<Rightarrow> error + Draw_call list" where
  "Render_objects RotationMatrix [] state = Inr []"
| "Render_objects RotationMatrix (obj # objs) state =
     (let call = Object_Draw RotationMatrix obj state
      in case gpu call of
           Inl e \<Rightarrow> Inl e
         | Inr calls \<Rightarrow>
             (case Render_objects RotationMatrix objs (caller_state_after call) of
                Inl e \<Rightarrow> Inl e
              | Inr rest \<Rightarrow> Inr (call # rest)))"

text \<open>\<open>state0\<close> is the content of the local \<open>RenderState state\<close> before its first
  assignment.\<close>

definition Render :: "(real \<Rightarrow> vec3 \<Rightarrow> mat4) \<Rightarrow> RenderState \<Rightarrow> Scene \<Rightarrow> error + Draw_call list" where
  "Render RotationMatrix state0 scene =
     (let state = state0\<lparr>st_wEye := wEye (camera scene)\<rparr>;
          state = state\<lparr>st_V := Camera_V (camera scene)\<rparr>;
          state = state\<lparr>st_P := Camera_P (camera scene)\<rparr>;
          state = state\<lparr>st_lights := lights scene\<rparr>
      in Render_objects RotationMatrix (objects scene) state)"

text \<open>The caller's \<open>state\<close> after the four assignments of \<open>Scene::Render\<close>.\<close>

definition Render_state :: "RenderState \<Rightarrow> Scene \<Rightarrow> RenderState" where
  "Render_state state0 scene =
     state0\<lparr>st_wEye := wEye (camera scene), st_V := Camera_V (camera scene),
            st_P := Camera_P (camera scene), st_lights := lights scene\<rparr>"

text \<open>The first material and the first sphere object of \<open>Scene::Build\<close>, placed as
  \<open>onDisplay\<close> places \<open>objects[3]\<close>; the camera and the three lights of \<open>Scene::Build\<close>.
  The ids stand for the ones that the GL context hands out.\<close>

definition material0 :: Material where
  "material0 = \<lparr>kd = vec3 0.6 0.4 0.2, ks = vec3 4 4 4, ka = vec3 0.1 0.1 0.1, shininess = 100\<rparr>"

definition sphereObject1 :: Object where
  "sphereObject1 =
     \<lparr>shader = PhongShader, material = material0, texture = 2,
      geometry = projr (create Sphere_eval tessellationLevel tessellationLevel
                          \<lparr>vao = 3, vbo = 3, nVtxPerStrip = 0, nStrips = 0, buffer = []\<rparr>),
      scale = vec3 0.5 0.5 0.5, translation = vec3 0 (- 3) 0,
      rotationAxis = vec3 0 1 0, rotationAngle = 0\<rparr>"

definition build_camera :: Camera where
  "build_camera =
     \<lparr>wEye = vec3 10 3 10, wLookat = vec3 0 1 0, wVup = vec3 0 1 0,
      fov = 75 * pi / 180, asp = 1, fp = 1, bp = 100\<rparr>"

definition build_lights :: "Light list" where
  "build_lights =
     [\<lparr>La = vec3 0.1 0.1 1, Le = vec3 3 0 0, wLightPos = vec4 5 5 4 1\<rparr>,
      \<lparr>La = vec3 0.2 0.2 0.2, Le = vec3 0 3 0, wLightPos = vec4 5 10 20 1\<rparr>,
      \<lparr>La = vec3 0.1 0.1 0.1, Le = vec3 0 0 3, wLightPos = vec4 (- 5) 5 5 1\<rparr>]"

text \<open>A content that the local \<open>RenderState state\<close> of \<open>Scene::Render\<close> may have before
  its fields are assigned.\<close>

definition fresh_state :: RenderState where
  "fresh_state =
     \<lparr>st_MVP = identity4, st_M = identity4, st_Minv = identity4, st_V = identity4,
      st_P = identity4, st_material = material0, st_lights = [], st_texture = 0,
      st_wEye = vec3 0 0 0\<rparr>"

section \<open>Animation\<close>

subsection \<open>Single-precision arithmetic\<close>

text \<open>A \<open>float\<close> value is the real number it stands for, and an operation on \<open>float\<close>s is
  the exact operation followed by \<open>fl32\<close>, the rounding to the nearest number with a
  24-bit significand, ties to the even one. (Results beyond the largest \<open>float\<close>,
  which do not occur below, are not turned into infinities.)\<close>

definition round_to_even :: "real \<Rightarrow> int" where
  "round_to_even r =
     (let n = \<lfloor>r\<rfloor>
      in if r - real_of_int n < 1 / 2 then n
         else if 1 / 2 < r - real_of_int n then n + 1
         else if even n then n else n + 1)"

definition ulp32 :: "real \<Rightarrow> real" where
  "ulp32 x = 2 powi (max \<lfloor>log 2 \<bar>x\<bar>\<rfloor> (- 126) - 23)"

definition fl32 :: "real \<Rightarrow> real" where
  "fl32 x = real_of_int (round_to_even (x / ulp32 x)) * ulp32 x"

subsection \<open>The idle callback\<close>

text \<open>\<open>const float dt = 0.1f\<close>.\<close>

definition dt :: real where
  "dt = fl32 (1 / 10)"

text \<open>The loop \<open>for (float t = tstart; t < tend; t += dt)\<close> of \<open>onIdle\<close>; \<open>calls\<close> collects
  the arguments of \<open>scene.Animate\<close>. The loop need not end, so it runs on \<open>fuel\<close>, one
  unit per pass, and \<open>None\<close> says that the fuel did not suffice.\<close>

fun onIdle_loop :: "nat \<Rightarrow> real \<Rightarrow> real \<Rightarrow> (real \<times> real) list \<Rightarrow> (real \<times> real) list option" where
  "onIdle_loop 0 t tend calls = None"
| "onIdle_loop (Suc fuel) t tend calls =
     (if t < tend
      then (let Dt = min dt (fl32 (tend - t))
            in onIdle_loop fuel (fl32 (t + dt)) tend (calls @ [(t, fl32 (t + Dt))]))
      else Some calls)"

text \<open>\<open>onIdle\<close> with the static variable \<open>tend\<close> passed in and out: given its old value and
  the milliseconds that \<open>glutGet(GLUT_ELAPSED_TIME)\<close> returns, an \<open>int\<close> that the division
  by \<open>1000.0f\<close> first converts to \<open>float\<close>, the new value and the calls of
  \<open>scene.Animate\<close>.\<close>

definition onIdle :: "nat \<Rightarrow> real \<Rightarrow> 32 word \<Rightarrow> (real \<times> (real \<times> real) list) option" where
  "onIdle fuel tend elapsed =
     (let tstart = tend;
          tend = fl32 (fl32 (real_of_int (sint elapsed)) / 1000)
      in case onIdle_loop fuel tstart tend [] of
           None \<Rightarrow> None
         | Some calls \<Rightarrow> Some (tend, calls))"

section \<open>The dual numbers carry the derivative\<close>

lemmas Dnum_defs = Dnum_of_float_def Dnum_plus_def Dnum_minus_def Dnum_times_def Dnum_divide_def
  Exp_def Sin_def Cos_def Tan_def Sinh_def Cosh_def Tanh_def Log_def Pow_def

lemmas vec2_defs = vec2_add_def vec2_sub_def vec2_scale_def vec2_times_def vec2_div_def

lemma dual_value: "f (dual e U V) = scalar e (f U) (f V)"
  by (induction e) (simp_all add: Dnum_defs tan_def tanh_def)

text \<open>The rules of differentiation in the shape in which the program writes them.\<close>

lemma deriv_Over:
  fixes g h :: "real \<Rightarrow> real"
  assumes "(g has_real_derivative g') (at x)" and "(h has_real_derivative h') (at x)"
    and "h x \<noteq> 0"
  shows "((\<lambda>s. g s / h s) has_real_derivative (h x * g' - h' * g x) / h x / h x) (at x)"
  using assms by (auto intro!: derivative_eq_intros simp: field_simps)

lemma deriv_Tan:
  fixes g :: "real \<Rightarrow> real"
  assumes "(g has_real_derivative g') (at x)" and "cos (g x) \<noteq> 0"
  shows "((\<lambda>s. tan (g s)) has_real_derivative
           (cos (g x) * (cos (g x) * g') - (- sin (g x) * g') * sin (g x)) / cos (g x) / cos (g x))
         (at x)"
  unfolding tan_def
  by (rule deriv_Over) (use assms in \<open>auto intro!: derivative_eq_intros\<close>)

lemma deriv_Tanh:
  fixes g :: "real \<Rightarrow> real"
  assumes "(g has_real_derivative g') (at x)"
  shows "((\<lambda>s. tanh (g s)) has_real_derivative
           (cosh (g x) * (cosh (g x) * g') - (sinh (g x) * g') * sinh (g x)) / cosh (g x) / cosh (g x))
         (at x)"
  unfolding tanh_def
  by (rule deriv_Over) (use assms in \<open>auto intro!: derivative_eq_intros\<close>)

lemma powf_int: "powf x (real_of_int k) = x powi k"
  by (simp add: powf_def powr_real_of_int')

lemma powf_deriv_pos:
  assumes "0 < y"
  shows "((\<lambda>z. powf z n) has_real_derivative n * powf y (n - 1)) (at y)"
proof (subst DERIV_cong_ev[OF refl _ refl])
  have "eventually (\<lambda>z. z \<in> {0<..}) (nhds y)"
    using assms by (intro eventually_nhds_in_open) auto
  then show "eventually (\<lambda>z. powf z n = z powr n) (nhds y)"
    by eventually_elim (simp add: powf_def)
  show "((\<lambda>z. z powr n) has_real_derivative n * powf y (n - 1)) (at y)"
    using assms has_real_derivative_powr[OF assms, of n] by (simp add: powf_def)
qed

lemma powf_deriv_int:
  assumes "n = real_of_int \<lfloor>n\<rfloor>" and "y \<noteq> 0 \<or> 1 \<le> n"
  shows "((\<lambda>z. powf z n) has_real_derivative n * powf y (n - 1)) (at y)"
proof -
  define k where "k = \<lfloor>n\<rfloor>"
  have n: "n = real_of_int k"
    using assms(1) by (simp add: k_def)
  have p1: "powf y (real_of_int k - 1) = y powi (k - 1)"
    using powf_int[of y "k - 1"] by simp
  have "0 \<le> k \<or> y \<noteq> 0"
    using assms(2) n by auto
  then have "((\<lambda>z. z powi k) has_real_derivative of_int k * (y powi (k - 1)) * 1) (at y)"
    by (intro DERIV_power_int) (auto intro!: derivative_eq_intros)
  then show ?thesis
    unfolding n by (simp add: powf_int p1)
qed

lemma deriv_Pow:
  fixes g :: "real \<Rightarrow> real"
  assumes "(g has_real_derivative g') (at x)"
    and "0 < g x \<or> n = real_of_int \<lfloor>n\<rfloor> \<and> (g x \<noteq> 0 \<or> 1 \<le> n)"
  shows "((\<lambda>s. powf (g s) n) has_real_derivative n * powf (g x) (n - 1) * g') (at x)"
proof -
  have "((\<lambda>z. powf z n) has_real_derivative n * powf (g x) (n - 1)) (at (g x))"
    using assms(2) powf_deriv_pos powf_deriv_int by blast
  then show ?thesis
    using assms(1) by (rule DERIV_chain2)
qed

text \<open>Along any differentiable curve \<open>(p, q)\<close> through the parameter plane the
  composed function has the derivative that the chain rule forms from the two gradient
  components. The partial derivatives are the curves along the axes.\<close>

lemma dual_along:
  fixes p q :: "real \<Rightarrow> real"
  assumes "(p has_real_derivative p') (at x)" and "(q has_real_derivative q') (at x)"
  shows "smooth_at e (p x) (q x) \<Longrightarrow>
     ((\<lambda>s. scalar e (p s) (q s)) has_real_derivative
        v2x (d (dual e (seedU (p x)) (seedV (q x)))) * p' +
        v2y (d (dual e (seedU (p x)) (seedV (q x)))) * q') (at x)"
proof (induction e)
  case ParamU
  then show ?case using assms by (simp add: seedU_def)
next
  case ParamV
  then show ?case using assms by (simp add: seedV_def)
next
  case (Const c)
  then show ?case by (simp add: Dnum_defs)
next
  case (Plus a b)
  then show ?case
    by (auto intro!: derivative_eq_intros simp: Dnum_defs vec2_defs algebra_simps)
next
  case (Minus a b)
  then show ?case
    by (auto intro!: derivative_eq_intros simp: Dnum_defs vec2_defs algebra_simps)
next
  case (Times a b)
  then show ?case
    by (auto intro!: derivative_eq_intros
        simp: Dnum_defs vec2_defs dual_value seedU_def seedV_def algebra_simps)
next
  case (Over a b)
  then show ?case
    by (auto intro!: DERIV_cong[OF deriv_Over[of "\<lambda>s. scalar a (p s) (q s)" _ x
                                                "\<lambda>s. scalar b (p s) (q s)"]]
        simp: Dnum_defs vec2_defs dual_value seedU_def seedV_def field_simps)
next
  case (ExpOf a)
  then show ?case
    by (auto intro!: derivative_eq_intros
        simp: Dnum_defs vec2_defs dual_value seedU_def seedV_def algebra_simps)
next
  case (SinOf a)
  then show ?case
    by (auto intro!: derivative_eq_intros
        simp: Dnum_defs vec2_defs dual_value seedU_def seedV_def algebra_simps)
next
  case (CosOf a)
  then show ?case
    by (auto intro!: derivative_eq_intros
        simp: Dnum_defs vec2_defs dual_value seedU_def seedV_def algebra_simps)
next
  case (TanOf a)
  then show ?case
    by (auto intro!: DERIV_cong[OF deriv_Tan[of "\<lambda>s. scalar a (p s) (q s)" _ x]]
        simp: Dnum_defs vec2_defs dual_value seedU_def seedV_def field_simps)
next
  case (SinhOf a)
  then show ?case
    by (auto intro!: derivative_eq_intros
        simp: Dnum_defs vec2_defs dual_value seedU_def seedV_def algebra_simps)
next
  case (CoshOf a)
  then show ?case
    by (auto intro!: derivative_eq_intros
        simp: Dnum_defs vec2_defs dual_value seedU_def seedV_def algebra_simps)
next
  case (TanhOf a)
  then show ?case
    by (auto intro!: DERIV_cong[OF deriv_Tanh[of "\<lambda>s. scalar a (p s) (q s)" _ x]]
        simp: Dnum_defs vec2_defs dual_value seedU_def seedV_def field_simps)
next
  case (LogOf a)
  then show ?case
    by (auto intro!: derivative_eq_intros
        simp: Dnum_defs vec2_defs dual_value seedU_def seedV_def field_simps)
next
  case (PowOf a n)
  then show ?case
    by (auto intro!: DERIV_cong[OF deriv_Pow[of "\<lambda>s. scalar a (p s) (q s)" _ x]]
        simp: Dnum_defs vec2_defs dual_value seedU_def seedV_def algebra_simps)
qed

lemma dual_du:
  assumes "smooth_at e u v"
  shows "((\<lambda>s. scalar e s v) has_real_derivative v2x (d (dual e (seedU u) (seedV v)))) (at u)"
  using dual_along[of "\<lambda>s. s" 1 u "\<lambda>s. v" 0 e] assms by simp

lemma dual_dv:
  assumes "smooth_at e u v"
  shows "((\<lambda>t. scalar e u t) has_real_derivative v2y (d (dual e (seedU u) (seedV v)))) (at v)"
  using dual_along[of "\<lambda>t. u" 0 v "\<lambda>t. t" 1 e] assms by simp

lemma Dnum_times_rule:
  "Dnum_times a b =
     Dnum (f a * f b)
          (vec2 (f a * v2x (d b) + v2x (d a) * f b) (f a * v2y (d b) + v2y (d a) * f b))"
  by (simp add: Dnum_defs vec2_defs)

lemma Dnum_divide_rule:
  "Dnum_divide a b =
     Dnum (f a / f b)
          (vec2 ((f b * v2x (d a) - v2x (d b) * f a) / (f b)\<^sup>2)
                ((f b * v2y (d a) - v2y (d b) * f a) / (f b)\<^sup>2))"
  by (simp add: Dnum_defs vec2_defs power2_eq_square)

text \<open>
  Claim C1. The product of two dual numbers has the value \<open>fa * fb\<close> and the gradient
  \<open>fa * db + da * fb\<close>; their quotient, for a divisor with \<open>fb \<noteq> 0\<close>, has the value
  \<open>fa / fb\<close> and the gradient \<open>(fb * da - db * fa) / fb\<^sup>2\<close>; and for every composition
  \<open>e\<close> of \<open>+\<close>, \<open>-\<close>, \<open>*\<close>, \<open>/\<close>, \<open>Exp\<close>, \<open>Sin\<close>, \<open>Cos\<close>, \<open>Tan\<close>, \<open>Sinh\<close>, \<open>Cosh\<close>,
  \<open>Tanh\<close>, \<open>Log\<close> and \<open>Pow\<close> by a constant, run on the seeds \<open>U = (u, (1, 0))\<close> and
  \<open>V = (v, (0, 1))\<close> at a point \<open>(u, v)\<close> that \<open>smooth_at\<close> admits, the value component is
  the composed function at \<open>(u, v)\<close> and the two gradient components are its partial
  derivatives with respect to \<open>u\<close> and to \<open>v\<close>.
\<close>

theorem Dnum_gradient_is_derivative:
  "Dnum_times a b =
     Dnum (f a * f b)
          (vec2 (f a * v2x (d b) + v2x (d a) * f b) (f a * v2y (d b) + v2y (d a) * f b))
   \<and> (f b \<noteq> 0 \<longrightarrow>
        Dnum_divide a b =
          Dnum (f a / f b)
               (vec2 ((f b * v2x (d a) - v2x (d b) * f a) / (f b)\<^sup>2)
                     ((f b * v2y (d a) - v2y (d b) * f a) / (f b)\<^sup>2)))
   \<and> (smooth_at e u v \<longrightarrow>
        f (dual e (seedU u) (seedV v)) = scalar e u v
        \<and> ((\<lambda>s. scalar e s v) has_real_derivative v2x (d (dual e (seedU u) (seedV v)))) (at u)
        \<and> ((\<lambda>t. scalar e u t) has_real_derivative v2y (d (dual e (seedU u) (seedV v)))) (at v))"
proof (intro conjI impI)
  show "f (dual e (seedU u) (seedV v)) = scalar e u v"
    by (simp add: dual_value seedU_def seedV_def)
qed (simp_all only: Dnum_times_rule Dnum_divide_rule dual_du dual_dv)

theorem Dnum_gradient_is_derivative_witness:
  "f (Dnum 2 (vec2 0 1)) \<noteq> 0
   \<and> smooth_at (Over (PowOf ParamU 3) (LogOf ParamV)) (- 2) 3
   \<and> Dnum_divide (Dnum 5 (vec2 1 0)) (Dnum 2 (vec2 0 1)) = Dnum (5 / 2) (vec2 (1 / 2) (- (5 / 4)))
   \<and> f (dual (Over (PowOf ParamU 3) (LogOf ParamV)) (seedU (- 2)) (seedV 3)) = - 8 / ln 3
   \<and> ((\<lambda>s. scalar (Over (PowOf ParamU 3) (LogOf ParamV)) s 3) has_real_derivative
         v2x (d (dual (Over (PowOf ParamU 3) (LogOf ParamV)) (seedU (- 2)) (seedV 3)))) (at (- 2))
   \<and> ((\<lambda>t. scalar (Over (PowOf ParamU 3) (LogOf ParamV)) (- 2) t) has_real_derivative
         v2y (d (dual (Over (PowOf ParamU 3) (LogOf ParamV)) (seedU (- 2)) (seedV 3)))) (at 3)"
proof -
  have nz: "f (Dnum 2 (vec2 0 1)) \<noteq> 0"
    by simp
  have sm: "smooth_at (Over (PowOf ParamU 3) (LogOf ParamV)) (- 2) 3"
    by simp
  note inst = Dnum_gradient_is_derivative[of "Dnum 5 (vec2 1 0)" "Dnum 2 (vec2 0 1)"
      "Over (PowOf ParamU 3) (LogOf ParamV)" "- 2" 3]
  from inst nz have "Dnum_divide (Dnum 5 (vec2 1 0)) (Dnum 2 (vec2 0 1))
      = Dnum (5 / 2) (vec2 (1 / 2) (- (5 / 4)))"
    by simp
  moreover from inst sm
  have "f (dual (Over (PowOf ParamU 3) (LogOf ParamV)) (seedU (- 2)) (seedV 3))
      = scalar (Over (PowOf ParamU 3) (LogOf ParamV)) (- 2) 3"
    by blast
  then have "f (dual (Over (PowOf ParamU 3) (LogOf ParamV)) (seedU (- 2)) (seedV 3)) = - 8 / ln 3"
    by (simp add: powf_def)
  moreover from inst sm
  have "((\<lambda>s. scalar (Over (PowOf ParamU 3) (LogOf ParamV)) s 3) has_real_derivative
         v2x (d (dual (Over (PowOf ParamU 3) (LogOf ParamV)) (seedU (- 2)) (seedV 3)))) (at (- 2))"
    and "((\<lambda>t. scalar (Over (PowOf ParamU 3) (LogOf ParamV)) (- 2) t) has_real_derivative
         v2y (d (dual (Over (PowOf ParamU 3) (LogOf ParamV)) (seedU (- 2)) (seedV 3)))) (at 3)"
    by blast+
  ultimately show ?thesis
    using nz sm by blast
qed

section \<open>Tessellation\<close>

lemma create_row_eq:
  assumes "0 \<le> j" and "M + 1 < 2 ^ 31"
  shows "create_row eval N M i j vtxData
         = Inr (vtxData @ concat (map (strip_pair eval N M i) [j..M]))"
  using assms
proof (induction eval N M i j vtxData rule: create_row.induct)
  case (1 eval N M i j vtxData)
  show ?case
  proof (cases "j \<le> M")
    case True
    with 1(2,3) have in_range: "int32 (j + 1)"
      by (simp add: int32_def)
    have pair: "[GenVertexData eval (real_of_int j / real_of_int M) (real_of_int i / real_of_int N),
                 GenVertexData eval (real_of_int j / real_of_int M)
                   (real_of_int (i + 1) / real_of_int N)] = strip_pair eval N M i j"
      by (simp only: strip_pair_def)
    have "create_row eval N M i j vtxData
          = create_row eval N M i (j + 1) (vtxData @ strip_pair eval N M i j)"
      using True in_range create_row.simps[of eval N M i j vtxData, unfolded pair] by simp
    also have "\<dots> = Inr ((vtxData @ strip_pair eval N M i j)
                      @ concat (map (strip_pair eval N M i) [j + 1..M]))"
      using 1(1)[OF True in_range, unfolded pair] 1(2,3) by simp
    also have "(vtxData @ strip_pair eval N M i j) @ concat (map (strip_pair eval N M i) [j + 1..M])
               = vtxData @ concat (map (strip_pair eval N M i) (j # [j + 1..M]))"
      by simp
    also have "j # [j + 1..M] = [j..M]"
      using True by (simp add: upto_rec1)
    finally show ?thesis .
  next
    case False
    then show ?thesis by (subst create_row.simps) simp
  qed
qed

lemma create_rows_eq:
  assumes "M + 1 < 2 ^ 31"
  shows "create_rows eval N M i vtxData
         = Inr (vtxData @ concat (map (strip eval N M) [i..N - 1]))"
  using assms
proof (induction eval N M i vtxData rule: create_rows.induct)
  case (1 eval N M i vtxData)
  show ?case
  proof (cases "i < N")
    case True
    have row: "create_row eval N M i 0 vtxData = Inr (vtxData @ strip eval N M i)"
      using 1(2) by (simp add: create_row_eq strip_def)
    have "create_rows eval N M i vtxData
          = create_rows eval N M (i + 1) (vtxData @ strip eval N M i)"
      using True row by (subst create_rows.simps) simp
    also have "\<dots> = Inr ((vtxData @ strip eval N M i)
                      @ concat (map (strip eval N M) [i + 1..N - 1]))"
      using 1(1)[OF True row] 1(2) by simp
    also have "(vtxData @ strip eval N M i) @ concat (map (strip eval N M) [i + 1..N - 1])
               = vtxData @ concat (map (strip eval N M) (i # [i + 1..N - 1]))"
      by simp
    also have "i # [i + 1..N - 1] = [i..N - 1]"
      using True by (simp add: upto_rec1)
    finally show ?thesis .
  next
    case False
    then show ?thesis by (subst create_rows.simps) simp
  qed
qed

lemma unat_Suc_less:
  fixes i n :: "32 word"
  assumes "i < n"
  shows "unat (i + 1) = Suc (unat i)"
proof -
  from assms have "unat i < unat n"
    by (simp add: word_less_nat_alt)
  moreover have "unat n < 2 ^ 32"
    using unsigned_less[of n] by simp
  ultimately have "unat i + 1 < 2 ^ LENGTH(32)"
    by simp
  then have "unat (i + 1) = unat i + unat (1 :: 32 word)"
    by (simp add: unat_add_lem[THEN iffD1])
  then show ?thesis
    by simp
qed

lemma Draw_strips_eq:
  "Draw_strips this i calls =
     calls @ map (\<lambda>k. glDrawArrays_TRIANGLE_STRIP (sint (word_of_nat k * nVtxPerStrip this))
                                                   (sint (nVtxPerStrip this)))
               [unat i..<unat (nStrips this)]"
proof (induction this i calls rule: Draw_strips.induct)
  case (1 this i calls)
  show ?case
  proof (cases "i < nStrips this")
    case True
    then have less: "unat i < unat (nStrips this)"
      by (simp add: word_less_nat_alt)
    have suc: "unat (i + 1) = Suc (unat i)"
      using True by (rule unat_Suc_less)
    have "Draw_strips this i calls
          = Draw_strips this (i + 1)
              (calls @ [glDrawArrays_TRIANGLE_STRIP (sint (i * nVtxPerStrip this))
                                                    (sint (nVtxPerStrip this))])"
      using True by (subst Draw_strips.simps) simp
    also have "\<dots> = (calls @ [glDrawArrays_TRIANGLE_STRIP (sint (i * nVtxPerStrip this))
                                                    (sint (nVtxPerStrip this))])
            @ map (\<lambda>k. glDrawArrays_TRIANGLE_STRIP (sint (word_of_nat k * nVtxPerStrip this))
                                                   (sint (nVtxPerStrip this)))
               [Suc (unat i)..<unat (nStrips this)]"
      using 1[OF True] by (simp only: suc)
    finally show ?thesis
      using less by (simp add: upt_rec[of "unat i"])
  next
    case False
    then have "\<not> unat i < unat (nStrips this)"
      by (simp add: word_less_nat_alt)
    with False show ?thesis
      by (subst Draw_strips.simps) simp
  qed
qed

lemma concat_nth_uniform:
  assumes "\<forall>x \<in> set xs. length (g x) = L" and "i < length xs" and "k < L"
  shows "concat (map g xs) ! (i * L + k) = g (xs ! i) ! k"
  using assms
proof (induction xs arbitrary: i)
  case Nil
  then show ?case by simp
next
  case (Cons x xs)
  show ?case
  proof (cases i)
    case 0
    with Cons.prems show ?thesis by (simp add: nth_append)
  next
    case (Suc i')
    with Cons.prems have "concat (map g xs) ! (i' * L + k) = g (xs ! i') ! k"
      by (intro Cons.IH) auto
    with Suc Cons.prems show ?thesis
      by (simp add: nth_append)
  qed
qed

lemma length_concat_uniform:
  assumes "\<forall>x \<in> set xs. length (g x) = L"
  shows "length (concat (map g xs)) = length xs * L"
  using assms by (induction xs) auto

lemma length_strip: "0 \<le> M \<Longrightarrow> length (strip eval N M i) = nat ((M + 1) * 2)"
  unfolding strip_def
  by (subst length_concat_uniform[where L = 2]) (auto simp: strip_pair_def nat_mult_distrib nat_add_distrib)

lemma strip_nth:
  assumes "0 \<le> j" and "j \<le> M" and "r < 2"
  shows "strip eval N M i ! (nat j * 2 + r) = strip_pair eval N M i j ! r"
proof -
  have "concat (map (strip_pair eval N M i) [0..M]) ! (nat j * 2 + r)
        = strip_pair eval N M i ([0..M] ! nat j) ! r"
    using assms by (intro concat_nth_uniform) (auto simp: strip_pair_def)
  moreover have "[0..M] ! nat j = j"
    using assms by (simp add: nth_upto)
  ultimately show ?thesis
    by (simp add: strip_def)
qed

text \<open>All the strips, in the order in which the outer loop appends them.\<close>

lemma rows_nth:
  assumes "0 \<le> M" and "0 \<le> i" and "i < N" and "k < nat ((M + 1) * 2)"
  shows "concat (map (strip eval N M) [0..N - 1]) ! (nat i * nat ((M + 1) * 2) + k)
         = strip eval N M i ! k"
proof -
  have "concat (map (strip eval N M) [0..N - 1]) ! (nat i * nat ((M + 1) * 2) + k)
        = strip eval N M ([0..N - 1] ! nat i) ! k"
    using assms by (intro concat_nth_uniform) (auto simp: length_strip)
  moreover have "[0..N - 1] ! nat i = i"
    using assms by (simp add: nth_upto)
  ultimately show ?thesis
    by simp
qed

lemma length_rows:
  assumes "0 \<le> M" and "0 \<le> N"
  shows "length (concat (map (strip eval N M) [0..N - 1])) = nat N * nat ((M + 1) * 2)"
  using assms
  by (simp add: length_concat_uniform[where L = "nat ((M + 1) * 2)"] length_strip)

text \<open>What \<open>create\<close> leaves when \<open>(M + 1) * 2\<close> is an \<open>int\<close>: every vertex is collected, and
  as many are uploaded as the wrapped product says.\<close>

lemma create_Inr:
  assumes "1 \<le> N" and "0 \<le> M" and "(M + 1) * 2 < 2 ^ 31"
  shows "create eval N M this
         = Inr (this\<lparr>nVtxPerStrip := word_of_int ((M + 1) * 2), nStrips := word_of_int N,
                     buffer := take (unat (word_of_int ((M + 1) * 2) * word_of_int N :: 32 word))
                                 (concat (map (strip eval N M) [0..N - 1]))\<rparr>)"
proof -
  have range: "int32 (M + 1)" "int32 ((M + 1) * 2)" "M + 1 < 2 ^ 31"
    using assms by (simp_all add: int32_def)
  have rows: "create_rows eval N M 0 [] = Inr (concat (map (strip eval N M) [0..N - 1]))"
    using range(3) by (simp add: create_rows_eq)
  have "length (concat (map (strip eval N M) [0..N - 1])) = nat N * nat ((M + 1) * 2)"
    using assms by (simp add: length_rows)
  moreover have "0 < nat N * nat ((M + 1) * 2)"
    using assms by simp
  ultimately have "concat (map (strip eval N M) [0..N - 1]) \<noteq> []"
    by (metis length_0_conv less_numeral_extra(3))
  with range rows show ?thesis
    by (simp add: create_def Let_def)
qed


lemma sint32: "- (2 ^ 31) \<le> x \<Longrightarrow> x < 2 ^ 31 \<Longrightarrow> sint (word_of_int x :: 32 word) = x"
  by (simp add: signed_of_int signed_take_bit_int_eq_self)

lemma unat32: "0 \<le> x \<Longrightarrow> x < 2 ^ 32 \<Longrightarrow> unat (word_of_int x :: 32 word) = nat x"
  by (simp add: unsigned_of_int take_bit_int_eq_self nat_take_bit_eq)

text \<open>
  Claim C2, as amended. For all \<open>N, M \<ge> 1\<close> with \<open>N * (M + 1) * 2 < 2\<^sup>3\<^sup>1\<close>,
  \<open>create(N, M)\<close> succeeds and uploads exactly \<open>N * (M + 1) * 2\<close> vertices; they form
  \<open>N\<close> strips of \<open>(M + 1) * 2\<close> vertices, and in strip \<open>i\<close> the vertices at the offsets
  \<open>2 * j\<close> and \<open>2 * j + 1\<close>, for \<open>j = 0..M\<close>, are the samples at \<open>(j / M, i / N)\<close> and at
  \<open>(j / M, (i + 1) / N)\<close>. \<open>Draw\<close> binds the vertex array and then issues exactly \<open>N\<close>
  triangle-strip calls, the \<open>k\<close>-th one over the \<open>(M + 1) * 2\<close> vertices that start at
  \<open>k * (M + 1) * 2\<close>.
\<close>

theorem create_tessellation:
  assumes "1 \<le> N" and "1 \<le> M" and "N * (M + 1) * 2 < 2 ^ 31"
  shows "\<exists>s. create eval N M this = Inr s
    \<and> length (buffer s) = nat (N * (M + 1) * 2)
    \<and> unat (nStrips s) = nat N
    \<and> unat (nVtxPerStrip s) = nat ((M + 1) * 2)
    \<and> (\<forall>i j. 0 \<le> i \<and> i < N \<and> 0 \<le> j \<and> j \<le> M \<longrightarrow>
          buffer s ! (nat i * nat ((M + 1) * 2) + nat j * 2)
            = GenVertexData eval (real_of_int j / real_of_int M) (real_of_int i / real_of_int N)
        \<and> buffer s ! (nat i * nat ((M + 1) * 2) + nat j * 2 + 1)
            = GenVertexData eval (real_of_int j / real_of_int M) (real_of_int (i + 1) / real_of_int N))
    \<and> Draw s
        = glBindVertexArray (vao this)
          # map (\<lambda>k. glDrawArrays_TRIANGLE_STRIP (int k * ((M + 1) * 2)) ((M + 1) * 2))
                [0..<nat N]"
proof -
  let ?c = "(M + 1) * 2"
  let ?rows = "concat (map (strip eval N M) [0..N - 1])"
  let ?s = "this\<lparr>nVtxPerStrip := word_of_int ?c, nStrips := word_of_int N,
                   buffer := take (unat (word_of_int ?c * word_of_int N :: 32 word)) ?rows\<rparr>"
  have c_pos: "0 < ?c"
    using assms(2) by simp
  have "?c * 1 \<le> ?c * N"
    using assms(1) c_pos by (intro mult_left_mono) simp_all
  then have c_le: "?c \<le> N * ?c"
    by (simp add: mult.commute)
  have total: "N * ?c < 2 ^ 31"
    using assms(3) by (simp add: mult.assoc)
  have c_small: "?c < 2 ^ 31" and N_small: "N < 2 ^ 31"
  proof -
    show "?c < 2 ^ 31"
      using c_le total by linarith
    have "N * 1 \<le> N * ?c"
      using assms(1) c_pos by (intro mult_left_mono) simp_all
    then show "N < 2 ^ 31"
      using total by simp
  qed
  have created: "create eval N M this = Inr ?s"
    using assms(1,2) c_small by (intro create_Inr) simp_all
  have len_rows: "length ?rows = nat N * nat ?c"
    using assms(1,2) by (intro length_rows) simp_all
  have "word_of_int ?c * word_of_int N = (word_of_int (N * ?c) :: 32 word)"
    by (simp add: mult.commute)
  then have upload: "unat (word_of_int ?c * word_of_int N :: 32 word) = nat (N * ?c)"
    using total assms(1) c_pos by (simp only: ) (intro unat32, simp_all)
  have "nat (N * ?c) = nat N * nat ?c"
    using assms(1) by (simp add: nat_mult_distrib)
  with upload len_rows have buf: "buffer ?s = ?rows"
    by simp
  have len: "length (buffer ?s) = nat (N * (M + 1) * 2)"
    using assms(1) by (simp only: buf len_rows) (simp add: nat_mult_distrib mult.assoc)
  have sel: "nStrips ?s = word_of_int N" "nVtxPerStrip ?s = word_of_int ?c"
    by simp_all
  have "unat (word_of_int N :: 32 word) = nat N"
    using assms(1) N_small by (intro unat32) simp_all
  then have ns: "unat (nStrips ?s) = nat N"
    by (simp only: sel)
  have "unat (word_of_int ?c :: 32 word) = nat ?c"
    using c_pos c_small by (intro unat32) simp_all
  then have nv: "unat (nVtxPerStrip ?s) = nat ?c"
    by (simp only: sel)
  have nth: "buffer ?s ! (nat i * nat ?c + nat j * 2)
            = GenVertexData eval (real_of_int j / real_of_int M) (real_of_int i / real_of_int N)
        \<and> buffer ?s ! (nat i * nat ?c + nat j * 2 + 1)
            = GenVertexData eval (real_of_int j / real_of_int M) (real_of_int (i + 1) / real_of_int N)"
    if ij: "0 \<le> i \<and> i < N \<and> 0 \<le> j \<and> j \<le> M" for i j
  proof -
    have k: "nat j * 2 + r < nat ?c" if "r < 2" for r
      using that ij by (cases r) (auto simp: nat_less_iff)
    have "?rows ! (nat i * nat ?c + (nat j * 2 + r)) = strip_pair eval N M i j ! r"
      if "r < 2" for r
    proof -
      have "?rows ! (nat i * nat ?c + (nat j * 2 + r)) = strip eval N M i ! (nat j * 2 + r)"
        using ij assms k[OF that] by (intro rows_nth) auto
      also have "\<dots> = strip_pair eval N M i j ! r"
        using ij that by (intro strip_nth) auto
      finally show ?thesis .
    qed
    from this[of 0] this[of 1] show ?thesis
      by (simp only: buf) (simp add: strip_pair_def add.assoc)
  qed
  have first: "sint (word_of_nat k * word_of_int ?c :: 32 word) = int k * ?c"
    if "k < nat N" for k
  proof -
    have "int k * ?c \<le> N * ?c"
      using that c_pos by (intro mult_right_mono) simp_all
    with total have "int k * ?c < 2 ^ 31"
      by linarith
    moreover have "0 \<le> int k * ?c"
      using c_pos by simp
    moreover have "(word_of_nat k * word_of_int ?c :: 32 word) = word_of_int (int k * ?c)"
      by simp
    ultimately show ?thesis
      by (simp only: ) (intro sint32, simp_all)
  qed
  have count: "sint (word_of_int ?c :: 32 word) = ?c"
    using c_pos c_small by (intro sint32) simp_all
  have "Draw ?s = glBindVertexArray (vao this)
          # map (\<lambda>k. glDrawArrays_TRIANGLE_STRIP (sint (word_of_nat k * word_of_int ?c :: 32 word))
                                                 (sint (word_of_int ?c :: 32 word)))
                [0..<nat N]"
    unfolding Draw_def Draw_strips_eq using ns by (simp only: sel) simp
  also have "map (\<lambda>k. glDrawArrays_TRIANGLE_STRIP (sint (word_of_nat k * word_of_int ?c :: 32 word))
                                                 (sint (word_of_int ?c :: 32 word)))
                [0..<nat N]
      = map (\<lambda>k. glDrawArrays_TRIANGLE_STRIP (int k * ?c) ?c) [0..<nat N]"
    by (rule map_cong) (simp_all only: count first atLeastLessThan_iff set_upt)
  finally have draw: "Draw ?s = glBindVertexArray (vao this)
          # map (\<lambda>k. glDrawArrays_TRIANGLE_STRIP (int k * ?c) ?c) [0..<nat N]" .
  from created len ns nv nth draw show ?thesis
    by blast
qed


theorem create_tessellation_witness:
  "(1::int) \<le> 2 \<and> (1::int) \<le> 3 \<and> (2::int) * (3 + 1) * 2 < 2 ^ 31
   \<and> (\<exists>s. create Sphere_eval 2 3 \<lparr>vao = 1, vbo = 1, nVtxPerStrip = 0, nStrips = 0, buffer = []\<rparr>
              = Inr s
        \<and> length (buffer s) = 16
        \<and> unat (nStrips s) = 2
        \<and> unat (nVtxPerStrip s) = 8
        \<and> buffer s ! 13 = GenVertexData Sphere_eval (2 / 3) 1
        \<and> Draw s = [glBindVertexArray 1, glDrawArrays_TRIANGLE_STRIP 0 8,
                     glDrawArrays_TRIANGLE_STRIP 8 8])"
proof -
  have h: "(1::int) \<le> 2" "(1::int) \<le> 3" "(2::int) * (3 + 1) * 2 < 2 ^ 31"
    by simp_all
  from create_tessellation[OF h, of Sphere_eval
      "\<lparr>vao = 1, vbo = 1, nVtxPerStrip = 0, nStrips = 0, buffer = []\<rparr>"]
  obtain s where s:
    "create Sphere_eval 2 3 \<lparr>vao = 1, vbo = 1, nVtxPerStrip = 0, nStrips = 0, buffer = []\<rparr> = Inr s"
    "length (buffer s) = nat (2 * (3 + 1) * 2)"
    "unat (nStrips s) = nat 2"
    "unat (nVtxPerStrip s) = nat ((3 + 1) * 2)"
    "\<forall>i j. 0 \<le> i \<and> i < 2 \<and> 0 \<le> j \<and> j \<le> 3 \<longrightarrow>
          buffer s ! (nat i * nat ((3 + 1) * 2) + nat j * 2)
            = GenVertexData Sphere_eval (real_of_int j / real_of_int 3) (real_of_int i / real_of_int 2)
        \<and> buffer s ! (nat i * nat ((3 + 1) * 2) + nat j * 2 + 1)
            = GenVertexData Sphere_eval (real_of_int j / real_of_int 3)
                (real_of_int (i + 1) / real_of_int 2)"
    "Draw s = glBindVertexArray (vao \<lparr>vao = 1, vbo = 1, nVtxPerStrip = 0, nStrips = 0, buffer = []\<rparr>)
          # map (\<lambda>k. glDrawArrays_TRIANGLE_STRIP (int k * ((3 + 1) * 2)) ((3 + 1) * 2))
                [0..<nat 2]"
    by blast
  have "(0::int) \<le> 1 \<and> (1::int) < 2 \<and> (0::int) \<le> 2 \<and> (2::int) \<le> 3"
    by simp
  with s(5)
  have "buffer s ! (nat 1 * nat ((3 + 1) * 2) + nat 2 * 2 + 1)
        = GenVertexData Sphere_eval (real_of_int 2 / real_of_int 3) (real_of_int (1 + 1) / real_of_int 2)"
    by blast
  then have n13: "buffer s ! 13 = GenVertexData Sphere_eval (2 / 3) 1"
    by simp
  have "[0..<nat 2] = [0, 1]"
    by (simp add: upt_rec)
  with s(6) have draw: "Draw s = [glBindVertexArray 1, glDrawArrays_TRIANGLE_STRIP 0 8,
                     glDrawArrays_TRIANGLE_STRIP 8 8]"
    by simp
  from s(1,2,3,4) n13 draw h show ?thesis
    by simp
qed

text \<open>
  The claim as the specification states it, for all \<open>N, M \<ge> 1\<close>, fails at
  \<open>N = M = 46341\<close>: \<open>create\<close> generates \<open>46341 * 46342 * 2 = 4295069244\<close> vertices, but the
  count that it uploads is the \<open>unsigned int\<close> product \<open>nVtxPerStrip * nStrips\<close>, which wraps
  to \<open>4295069244 - 2\<^sup>3\<^sup>2 = 101948\<close>.
\<close>

theorem create_tessellation_counterexample:
  "(1::int) \<le> 46341
   \<and> \<not> isl (create Sphere_eval 46341 46341
               \<lparr>vao = 1, vbo = 1, nVtxPerStrip = 0, nStrips = 0, buffer = []\<rparr>)
   \<and> length (buffer (projr (create Sphere_eval 46341 46341
               \<lparr>vao = 1, vbo = 1, nVtxPerStrip = 0, nStrips = 0, buffer = []\<rparr>))) = 101948
   \<and> nat (46341 * (46341 + 1) * 2) = 4295069244"
proof -
  have "length (concat (map (strip Sphere_eval 46341 46341) [0..46341 - 1]))
        = nat 46341 * nat ((46341 + 1) * 2)"
    by (intro length_rows) simp_all
  then have len: "length (concat (map (strip Sphere_eval 46341 46341) [0..46340])) = 4295069244"
    by simp
  have w: "unat (word_of_int ((46341 + 1) * 2) * word_of_int 46341 :: 32 word) = 101948"
    by simp
  have "create Sphere_eval 46341 46341 \<lparr>vao = 1, vbo = 1, nVtxPerStrip = 0, nStrips = 0, buffer = []\<rparr>
        = Inr (\<lparr>vao = 1, vbo = 1, nVtxPerStrip = 0, nStrips = 0, buffer = []\<rparr>
                \<lparr>nVtxPerStrip := word_of_int ((46341 + 1) * 2), nStrips := word_of_int 46341,
                  buffer := take (unat (word_of_int ((46341 + 1) * 2) * word_of_int 46341 :: 32 word))
                              (concat (map (strip Sphere_eval 46341 46341) [0..46341 - 1]))\<rparr>)"
    by (intro create_Inr) simp_all
  then show ?thesis
    by (simp only: w) (simp add: len)
qed

section \<open>The sphere\<close>

lemmas vec3_defs = vec3_add_def vec3_sub_def vec3_neg_def vec3_times_def vec3_mul_def dot_def
  length3_def normalize3_def cross_def

lemma Sphere_position:
  "position (GenVertexData Sphere_eval u v)
     = vec3 (cos (u * 2 * pi) * sin (v * pi)) (sin (u * 2 * pi) * sin (v * pi)) (cos (v * pi))"
  by (simp add: GenVertexData_def Sphere_eval_def Let_def Dnum_defs seedU_def seedV_def)

text \<open>
  Claim C3. For every \<open>(u, v)\<close>, in particular for every point of the unit square, the
  position that the sphere mapping generates has Euclidean norm 1.
\<close>

theorem Sphere_position_unit:
  "length3 (position (GenVertexData Sphere_eval u v)) = 1"
proof -
  have split: "(a * s)\<^sup>2 + (b * s)\<^sup>2 + c\<^sup>2 = (a\<^sup>2 + b\<^sup>2) * s\<^sup>2 + c\<^sup>2"
    for a b s c :: real
    by (simp add: power_mult_distrib distrib_right)
  have "(cos (u * 2 * pi) * sin (v * pi))\<^sup>2 + (sin (u * 2 * pi) * sin (v * pi))\<^sup>2
          + (cos (v * pi))\<^sup>2
        = ((cos (u * 2 * pi))\<^sup>2 + (sin (u * 2 * pi))\<^sup>2) * (sin (v * pi))\<^sup>2
          + (cos (v * pi))\<^sup>2"
    by (rule split)
  also have "\<dots> = (sin (v * pi))\<^sup>2 + (cos (v * pi))\<^sup>2"
    by (simp only: sin_cos_squared_add2 mult_1)
  also have "\<dots> = 1"
    by (rule sin_cos_squared_add)
  finally have "(cos (u * 2 * pi) * sin (v * pi))\<^sup>2 + (sin (u * 2 * pi) * sin (v * pi))\<^sup>2
          + (cos (v * pi))\<^sup>2 = 1" .
  then show ?thesis
    by (simp add: Sphere_position length3_def dot_def power2_eq_square)
qed

section \<open>Vertex generation\<close>

lemma cross_dependent:
  "cross (vec3_times b k) b = vec3 0 0 0" "cross a (vec3_times a k) = vec3 0 0 0"
  by (simp_all add: cross_def vec3_times_def)

lemma Sphere_pole_normal:
  "normal (GenVertexData Sphere_eval u 0) = vec3 0 0 0"
  "normal (GenVertexData Sphere_eval u 1) = vec3 0 0 0"
  by (simp_all add: GenVertexData_def Sphere_eval_def Let_def Dnum_defs vec2_defs cross_def
      seedU_def seedV_def)

text \<open>
  Claim C4. For every surface evaluator and every \<open>(u, v)\<close>, with \<open>X, Y, Z\<close> the dual
  numbers that the evaluator leaves, the generated vertex has the position
  \<open>(X.f, Y.f, Z.f)\<close>, the texture coordinate \<open>(u, v)\<close>, and as its normal the cross
  product of \<open>(X.d.x, Y.d.x, Z.d.x)\<close> and \<open>(X.d.y, Y.d.y, Z.d.y)\<close> itself, not a
  normalized copy of it. Where one tangent vector is a multiple of the other the
  normal is the zero vector, which is a value like any other; this is so at the
  poles \<open>v = 0\<close> and \<open>v = 1\<close> of the sphere.
\<close>

theorem GenVertexData_position_normal:
  assumes "eval (seedU u, seedV v, Dnum_of_float 0, Dnum_of_float 0, Dnum_of_float 0)
             = (U', V', X, Y, Z)"
  shows "position (GenVertexData eval u v) = vec3 (f X) (f Y) (f Z)
    \<and> normal (GenVertexData eval u v)
        = cross (vec3 (v2x (d X)) (v2x (d Y)) (v2x (d Z))) (vec3 (v2y (d X)) (v2y (d Y)) (v2y (d Z)))
    \<and> texcoord (GenVertexData eval u v) = vec2 u v
    \<and> (vec3 (v2x (d X)) (v2x (d Y)) (v2x (d Z))
          = vec3_times (vec3 (v2y (d X)) (v2y (d Y)) (v2y (d Z))) k
        \<or> vec3 (v2y (d X)) (v2y (d Y)) (v2y (d Z))
          = vec3_times (vec3 (v2x (d X)) (v2x (d Y)) (v2x (d Z))) k
        \<longrightarrow> normal (GenVertexData eval u v) = vec3 0 0 0)
    \<and> normal (GenVertexData Sphere_eval u 0) = vec3 0 0 0
    \<and> normal (GenVertexData Sphere_eval u 1) = vec3 0 0 0"
proof -
  have n: "normal (GenVertexData eval u v)
        = cross (vec3 (v2x (d X)) (v2x (d Y)) (v2x (d Z))) (vec3 (v2y (d X)) (v2y (d Y)) (v2y (d Z)))"
    using assms by (simp add: GenVertexData_def Let_def)
  have "position (GenVertexData eval u v) = vec3 (f X) (f Y) (f Z)"
    and "texcoord (GenVertexData eval u v) = vec2 u v"
    using assms by (simp_all add: GenVertexData_def Let_def)
  moreover have "normal (GenVertexData eval u v) = vec3 0 0 0"
    if "vec3 (v2x (d X)) (v2x (d Y)) (v2x (d Z))
          = vec3_times (vec3 (v2y (d X)) (v2y (d Y)) (v2y (d Z))) k
        \<or> vec3 (v2y (d X)) (v2y (d Y)) (v2y (d Z))
          = vec3_times (vec3 (v2x (d X)) (v2x (d Y)) (v2x (d Z))) k"
    using that
  proof
    assume e: "vec3 (v2x (d X)) (v2x (d Y)) (v2x (d Z))
          = vec3_times (vec3 (v2y (d X)) (v2y (d Y)) (v2y (d Z))) k"
    show ?thesis
      unfolding n by (subst e) (rule cross_dependent)
  next
    assume e: "vec3 (v2y (d X)) (v2y (d Y)) (v2y (d Z))
          = vec3_times (vec3 (v2x (d X)) (v2x (d Y)) (v2x (d Z))) k"
    show ?thesis
      unfolding n by (subst e) (rule cross_dependent)
  qed
  ultimately show ?thesis
    using n Sphere_pole_normal by blast
qed

theorem GenVertexData_position_normal_witness:
  "Sphere_eval (seedU 0, seedV 0, Dnum_of_float 0, Dnum_of_float 0, Dnum_of_float 0)
     = (Dnum 0 (vec2 (2 * pi) 0), Dnum 0 (vec2 0 pi),
        Dnum 0 (vec2 0 pi), Dnum 0 (vec2 0 0), Dnum 1 (vec2 0 0))
   \<and> vec3 0 0 0 = vec3_times (vec3 pi 0 0) 0
   \<and> position (GenVertexData Sphere_eval 0 0) = vec3 0 0 1
   \<and> normal (GenVertexData Sphere_eval 0 0) = cross (vec3 0 0 0) (vec3 pi 0 0)
   \<and> normal (GenVertexData Sphere_eval 0 0) = vec3 0 0 0"
proof -
  have h: "Sphere_eval (seedU 0, seedV 0, Dnum_of_float 0, Dnum_of_float 0, Dnum_of_float 0)
     = (Dnum 0 (vec2 (2 * pi) 0), Dnum 0 (vec2 0 pi),
        Dnum 0 (vec2 0 pi), Dnum 0 (vec2 0 0), Dnum 1 (vec2 0 0))"
    by (simp add: Sphere_eval_def Let_def Dnum_defs vec2_defs seedU_def seedV_def)
  have k: "vec3 0 0 0 = vec3_times (vec3 pi 0 0) 0"
    by (simp add: vec3_times_def)
  note inst = GenVertexData_position_normal[where eval = Sphere_eval and u = 0 and v = 0
      and k = 0, OF h]
  from inst have p: "position (GenVertexData Sphere_eval 0 0) = vec3 0 0 1"
    and n: "normal (GenVertexData Sphere_eval 0 0) = cross (vec3 0 0 0) (vec3 pi 0 0)"
    by simp_all
  have "vec3 0 0 0 = vec3_times (vec3 pi 0 0) 0
      \<or> vec3 pi 0 0 = vec3_times (vec3 0 0 0) 0
      \<longrightarrow> normal (GenVertexData Sphere_eval 0 0) = vec3 0 0 0"
    using inst unfolding Dnum2.sel vec2.sel by blast
  with k have "normal (GenVertexData Sphere_eval 0 0) = vec3 0 0 0"
    by blast
  with h k p n show ?thesis
    by blast
qed

section \<open>The modeling transform and its inverse\<close>

lemmas vec4_defs = vec4_add_def vec4_scale_def xyz_def

lemma vec4_mat4_mul: "vec4_mat4 (vec4_mat4 v a) b = vec4_mat4 v (mat4_mul a b)"
  by (cases v; cases a; cases b)
     (simp add: vec4_mat4_def mat4_mul_def vec4_defs algebra_simps)

lemma mat4_mul_assoc: "mat4_mul (mat4_mul a b) c = mat4_mul a (mat4_mul b c)"
  by (cases a) (simp add: mat4_mul_def vec4_mat4_mul)

lemma vec4_mat4_identity: "vec4_mat4 v identity4 = v"
  by (cases v) (simp add: vec4_mat4_def identity4_def mat4_def vec4_defs)

lemma mat4_mul_identity_left: "mat4_mul identity4 a = a"
  by (cases a) (simp add: mat4_mul_def vec4_mat4_def identity4_def mat4_def vec4_defs vec4.expand)

lemma ScaleMatrix_inverse:
  assumes "v3x s \<noteq> 0" and "v3y s \<noteq> 0" and "v3z s \<noteq> 0"
  shows "mat4_mul (ScaleMatrix s) (ScaleMatrix (vec3 (1 / v3x s) (1 / v3y s) (1 / v3z s))) = identity4"
  using assms
  by (simp add: mat4_mul_def vec4_mat4_def ScaleMatrix_def identity4_def mat4_def vec4_defs)

lemma TranslateMatrix_inverse:
  "mat4_mul (TranslateMatrix t) (TranslateMatrix (vec3_neg t)) = identity4"
  by (simp add: mat4_mul_def vec4_mat4_def TranslateMatrix_def identity4_def mat4_def vec4_defs vec3_neg_def)

lemma normalize3_unit:
  assumes "w0 \<noteq> vec3 0 0 0"
  shows "v3x (normalize3 w0) * v3x (normalize3 w0) + v3y (normalize3 w0) * v3y (normalize3 w0)
         + v3z (normalize3 w0) * v3z (normalize3 w0) = 1"
proof -
  obtain x y z where w0: "w0 = vec3 x y z"
    by (cases w0)
  define q where "q = x * x + y * y + z * z"
  define l where "l = sqrt q"
  from assms w0 have "x \<noteq> 0 \<or> y \<noteq> 0 \<or> z \<noteq> 0"
    by simp
  then have "0 < x * x \<or> 0 < y * y \<or> 0 < z * z"
    by (simp add: zero_less_mult_iff) argo
  moreover have "0 \<le> x * x" "0 \<le> y * y" "0 \<le> z * z"
    by simp_all
  ultimately have pos: "0 < q"
    unfolding q_def by linarith
  then have ll: "l * l = q" and l0: "l \<noteq> 0"
    by (simp_all add: l_def)
  have "x * (1 / l) * (x * (1 / l)) + y * (1 / l) * (y * (1 / l)) + z * (1 / l) * (z * (1 / l))
        = q / (l * l)"
    using l0 by (simp add: q_def field_simps)
  also have "\<dots> = 1"
    using pos by (simp add: ll)
  finally show ?thesis
    by (simp add: w0 normalize3_def length3_def dot_def vec3_times_def l_def q_def)
qed

lemma rotation_product:
  fixes c s x y z :: real
  assumes "x * x + y * y + z * z = 1" and "c * c + s * s = 1"
  shows "mat4_mul
           (mat4 (c * (1 - x * x) + x * x) (x * y * (1 - c) + z * s) (x * z * (1 - c) - y * s) 0
                 (x * y * (1 - c) - z * s) (c * (1 - y * y) + y * y) (y * z * (1 - c) + x * s) 0
                 (x * z * (1 - c) + y * s) (y * z * (1 - c) - x * s) (c * (1 - z * z) + z * z) 0
                 0 0 0 1)
           (mat4 (c * (1 - x * x) + x * x) (x * y * (1 - c) + z * - s) (x * z * (1 - c) - y * - s) 0
                 (x * y * (1 - c) - z * - s) (c * (1 - y * y) + y * y) (y * z * (1 - c) + x * - s) 0
                 (x * z * (1 - c) + y * - s) (y * z * (1 - c) - x * - s) (c * (1 - z * z) + z * z) 0
                 0 0 0 1)
         = identity4"
  unfolding mat4_mul_def vec4_mat4_def identity4_def mat4_def vec4_defs mat4.sel vec4.sel
    mat4.inject vec4.inject
  using assms
  apply (intro conjI)
  apply (algebra | simp)+
  done

lemma axis_angle_rotation_inverse:
  assumes "w0 \<noteq> vec3 0 0 0"
  shows "mat4_mul (axis_angle_rotation angle w0) (axis_angle_rotation (- angle) w0) = identity4"
  unfolding axis_angle_rotation_def Let_def cos_minus sin_minus
  by (rule rotation_product) (simp_all add: normalize3_unit[OF assms])


text \<open>The round trip for any rotation helper whose matrix for the negated angle undoes
  its matrix for the angle.\<close>

lemma round_trip_of_inverse_rotation:
  assumes "v3x (scale this) \<noteq> 0" and "v3y (scale this) \<noteq> 0" and "v3z (scale this) \<noteq> 0"
    and "mat4_mul (RotationMatrix (rotationAngle this) (rotationAxis this))
                  (RotationMatrix (- rotationAngle this) (rotationAxis this)) = identity4"
  shows "mat4_mul (fst (SetModelingTransform RotationMatrix this))
                  (snd (SetModelingTransform RotationMatrix this)) = identity4
    \<and> vec4_mat4 (vec4_mat4 p (fst (SetModelingTransform RotationMatrix this)))
                (snd (SetModelingTransform RotationMatrix this)) = p"
proof -
  let ?S = "ScaleMatrix (scale this)"
  let ?S' = "ScaleMatrix (vec3 (1 / v3x (scale this)) (1 / v3y (scale this)) (1 / v3z (scale this)))"
  let ?R = "RotationMatrix (rotationAngle this) (rotationAxis this)"
  let ?R' = "RotationMatrix (- rotationAngle this) (rotationAxis this)"
  let ?T = "TranslateMatrix (translation this)"
  let ?T' = "TranslateMatrix (vec3_neg (translation this))"
  let ?M = "fst (SetModelingTransform RotationMatrix this)"
  let ?Minv = "snd (SetModelingTransform RotationMatrix this)"
  have M: "?M = mat4_mul (mat4_mul ?S ?R) ?T" and Minv: "?Minv = mat4_mul (mat4_mul ?T' ?R') ?S'"
    by (simp_all add: SetModelingTransform_def)
  have "mat4_mul ?M ?Minv
        = mat4_mul ?S (mat4_mul ?R (mat4_mul (mat4_mul ?T ?T') (mat4_mul ?R' ?S')))"
    unfolding M Minv by (simp only: mat4_mul_assoc)
  also have "\<dots> = mat4_mul ?S (mat4_mul (mat4_mul ?R ?R') ?S')"
    by (simp only: TranslateMatrix_inverse mat4_mul_identity_left mat4_mul_assoc)
  also have "\<dots> = mat4_mul ?S ?S'"
    by (simp only: assms(4) mat4_mul_identity_left)
  also have "\<dots> = identity4"
    using assms(1-3) by (rule ScaleMatrix_inverse)
  finally have I: "mat4_mul ?M ?Minv = identity4" .
  then have "vec4_mat4 (vec4_mat4 p ?M) ?Minv = p"
    by (simp add: vec4_mat4_mul vec4_mat4_identity)
  with I show ?thesis
    by simp
qed

text \<open>
  Claim C7, as amended. For every object whose scale has no zero component and whose
  rotation axis is not the zero vector, the matrices \<open>M = Scale * Rotate * Translate\<close> and
  \<open>Minv = Translate(-t) * Rotate(-angle) * Scale(1 / s)\<close> that \<open>SetModelingTransform\<close>
  produces with the axis-angle rotation satisfy \<open>M * Minv = 1\<close>, and applying \<open>M\<close> and then
  \<open>Minv\<close> to any point gives the point back.
\<close>

theorem SetModelingTransform_round_trip:
  assumes "v3x (scale this) \<noteq> 0" and "v3y (scale this) \<noteq> 0" and "v3z (scale this) \<noteq> 0"
    and "rotationAxis this \<noteq> vec3 0 0 0"
  shows "mat4_mul (fst (SetModelingTransform axis_angle_rotation this))
                  (snd (SetModelingTransform axis_angle_rotation this)) = identity4
    \<and> vec4_mat4 (vec4_mat4 p (fst (SetModelingTransform axis_angle_rotation this)))
                (snd (SetModelingTransform axis_angle_rotation this)) = p"
proof -
  have "mat4_mul (axis_angle_rotation (rotationAngle this) (rotationAxis this))
                 (axis_angle_rotation (- rotationAngle this) (rotationAxis this)) = identity4"
    using assms(4) by (rule axis_angle_rotation_inverse)
  with assms(1-3) show ?thesis
    by (rule round_trip_of_inverse_rotation)
qed

theorem SetModelingTransform_round_trip_witness:
  "v3x (scale (sphereObject1\<lparr>rotationAngle := 1\<rparr>)) \<noteq> 0
   \<and> v3y (scale (sphereObject1\<lparr>rotationAngle := 1\<rparr>)) \<noteq> 0
   \<and> v3z (scale (sphereObject1\<lparr>rotationAngle := 1\<rparr>)) \<noteq> 0
   \<and> rotationAxis (sphereObject1\<lparr>rotationAngle := 1\<rparr>) \<noteq> vec3 0 0 0
   \<and> mat4_mul (fst (SetModelingTransform axis_angle_rotation (sphereObject1\<lparr>rotationAngle := 1\<rparr>)))
               (snd (SetModelingTransform axis_angle_rotation (sphereObject1\<lparr>rotationAngle := 1\<rparr>)))
       = identity4
   \<and> vec4_mat4 (vec4_mat4 (vec4 1 2 3 1)
                  (fst (SetModelingTransform axis_angle_rotation (sphereObject1\<lparr>rotationAngle := 1\<rparr>))))
                (snd (SetModelingTransform axis_angle_rotation (sphereObject1\<lparr>rotationAngle := 1\<rparr>)))
       = vec4 1 2 3 1"
proof -
  let ?obj = "sphereObject1\<lparr>rotationAngle := 1\<rparr>"
  have s: "v3x (scale ?obj) \<noteq> 0" "v3y (scale ?obj) \<noteq> 0" "v3z (scale ?obj) \<noteq> 0"
    by (simp_all add: sphereObject1_def)
  have r: "rotationAxis ?obj \<noteq> vec3 0 0 0"
    by (simp add: sphereObject1_def)
  show ?thesis
    using s r SetModelingTransform_round_trip[where this = "?obj" and p = "vec4 1 2 3 1", OF s r]
    by blast
qed

text \<open>
  The claim as the specification states it, with no condition on the rotation axis, fails
  for an object as the constructor leaves it (unit scale, rotation axis \<open>(0, 0, 0)\<close>) once its
  angle is a quarter turn: the axis cannot be normalized, and with the zero vector in its
  place the rotation block of both matrices is zero, so \<open>M * Minv\<close> is not the identity and
  the point \<open>(1, 2, 3)\<close> does not come back. (In the floating-point program the normalization
  divides by a zero length and both matrices hold NaN entries, so no point comes back
  there either.)
\<close>

theorem SetModelingTransform_round_trip_counterexample:
  "v3x (scale ((Object_new PhongShader material0 2 (geometry sphereObject1))\<lparr>rotationAngle := pi / 2\<rparr>)) \<noteq> 0
   \<and> v3y (scale ((Object_new PhongShader material0 2 (geometry sphereObject1))\<lparr>rotationAngle := pi / 2\<rparr>)) \<noteq> 0
   \<and> v3z (scale ((Object_new PhongShader material0 2 (geometry sphereObject1))\<lparr>rotationAngle := pi / 2\<rparr>)) \<noteq> 0
   \<and> mat4_mul (fst (SetModelingTransform axis_angle_rotation
                      ((Object_new PhongShader material0 2 (geometry sphereObject1))\<lparr>rotationAngle := pi / 2\<rparr>)))
               (snd (SetModelingTransform axis_angle_rotation
                      ((Object_new PhongShader material0 2 (geometry sphereObject1))\<lparr>rotationAngle := pi / 2\<rparr>)))
       \<noteq> identity4
   \<and> vec4_mat4 (vec4_mat4 (vec4 1 2 3 1)
                  (fst (SetModelingTransform axis_angle_rotation
                         ((Object_new PhongShader material0 2 (geometry sphereObject1))\<lparr>rotationAngle := pi / 2\<rparr>))))
                (snd (SetModelingTransform axis_angle_rotation
                       ((Object_new PhongShader material0 2 (geometry sphereObject1))\<lparr>rotationAngle := pi / 2\<rparr>)))
       \<noteq> vec4 1 2 3 1"
proof -
  let ?obj = "(Object_new PhongShader material0 2 (geometry sphereObject1))\<lparr>rotationAngle := pi / 2\<rparr>"
  have R: "axis_angle_rotation (pi / 2) (vec3 0 0 0) = mat4 0 0 0 0 0 0 0 0 0 0 0 0 0 0 0 1"
    "axis_angle_rotation (- (pi / 2)) (vec3 0 0 0) = mat4 0 0 0 0 0 0 0 0 0 0 0 0 0 0 0 1"
    by (simp_all add: axis_angle_rotation_def normalize3_def length3_def dot_def vec3_times_def
        mat4_def)
  have M: "fst (SetModelingTransform axis_angle_rotation ?obj) = mat4 0 0 0 0 0 0 0 0 0 0 0 0 0 0 0 1"
    by (simp add: SetModelingTransform_def Object_new_def R ScaleMatrix_def TranslateMatrix_def
        mat4_mul_def vec4_mat4_def mat4_def vec4_defs)
  have Minv: "snd (SetModelingTransform axis_angle_rotation ?obj) = mat4 0 0 0 0 0 0 0 0 0 0 0 0 0 0 0 1"
    by (simp add: SetModelingTransform_def Object_new_def R ScaleMatrix_def TranslateMatrix_def
        mat4_mul_def vec4_mat4_def mat4_def vec4_defs vec3_neg_def)
  have P: "mat4_mul (mat4 0 0 0 0 0 0 0 0 0 0 0 0 0 0 0 1) (mat4 0 0 0 0 0 0 0 0 0 0 0 0 0 0 0 1)
           \<noteq> identity4"
    by (simp add: mat4_mul_def vec4_mat4_def mat4_def identity4_def vec4_defs)
  have Q: "vec4_mat4 (vec4_mat4 (vec4 1 2 3 1) (mat4 0 0 0 0 0 0 0 0 0 0 0 0 0 0 0 1))
                     (mat4 0 0 0 0 0 0 0 0 0 0 0 0 0 0 0 1) = vec4 0 0 0 1"
    by (simp add: vec4_mat4_def mat4_def vec4_defs)
  have "vec4 0 0 0 1 \<noteq> vec4 1 2 3 1"
    by simp
  with Q have Q': "vec4_mat4 (vec4_mat4 (vec4 1 2 3 1) (mat4 0 0 0 0 0 0 0 0 0 0 0 0 0 0 0 1))
                             (mat4 0 0 0 0 0 0 0 0 0 0 0 0 0 0 0 1) \<noteq> vec4 1 2 3 1"
    by simp
  show ?thesis
    unfolding M Minv using P Q' by (simp add: Object_new_def)
qed

section \<open>The idle-time animation loop\<close>

text \<open>Rounding to \<open>float\<close> within one binade.\<close>

lemma floor_log2_binade:
  fixes x :: real
  assumes "2 powi e \<le> x" and "x < 2 powi (e + 1)"
  shows "\<lfloor>log 2 x\<rfloor> = e"
proof -
  have "0 < x"
    using assms(1) by (smt (verit) zero_less_power_int)
  have "2 powr (real_of_int e + 1) = 2 powr (real_of_int (e + 1))"
    by simp
  also have "\<dots> = 2 powi (e + 1)"
    by (simp add: powr_real_of_int' del: of_int_add)
  finally have up: "2 powr (real_of_int e + 1) = 2 powi (e + 1)" .
  have low: "2 powr (real_of_int e) = 2 powi e"
    by (simp add: powr_real_of_int')
  from \<open>0 < x\<close> show ?thesis
    using assms by (simp add: floor_log_eq_powr_iff up low)
qed

lemma fl32_binade:
  assumes "2 powi e \<le> \<bar>x\<bar>" and "\<bar>x\<bar> < 2 powi (e + 1)" and "- 126 \<le> e"
  shows "fl32 x = real_of_int (round_to_even (x / 2 powi (e - 23))) * 2 powi (e - 23)"
  using floor_log2_binade[OF assms(1,2)] assms(3) by (simp add: fl32_def ulp32_def)

lemma dt_value: "dt = 13421773 / 134217728"
  unfolding dt_def
  by (subst fl32_binade[where e = "- 4"]) (simp_all add: round_to_even_def power_int_minus)


lemma fl32_quarter: "fl32 (1 / 4) = 1 / 4"
  by (subst fl32_binade[where e = "- 2"]) (simp_all add: round_to_even_def power_int_minus)

lemma fl32_eighth: "fl32 (1 / 8) = 1 / 8"
  by (subst fl32_binade[where e = "- 3"]) (simp_all add: round_to_even_def power_int_minus)

lemma step_stalls: "fl32 (2097152 + dt) = 2097152"
  unfolding dt_value
  by (subst fl32_binade[where e = 21]) (simp_all add: round_to_even_def power_int_minus)

lemma onIdle_loop_stalls: "onIdle_loop fuel 2097152 (2097152 + 1 / 4) calls = None"
proof (induction fuel arbitrary: calls)
  case 0
  show ?case
    by simp
next
  case (Suc fuel)
  have "min dt (fl32 (2097152 + 1 / 4 - 2097152)) = dt"
    by (simp add: fl32_quarter dt_value)
  then show ?case
    using Suc by (simp add: step_stalls Let_def)
qed

lemma elapsed_2097152250: "fl32 (fl32 (real_of_int (sint (2097152250 :: 32 word))) / 1000) = 2097152 + 1 / 4"
proof -
  have "fl32 (real_of_int (sint (2097152250 :: 32 word))) = 2097152256"
    by (subst fl32_binade[where e = 30]) (simp_all add: round_to_even_def power_int_minus)
  moreover have "fl32 (2097152256 / 1000) = 2097152 + 1 / 4"
    by (subst fl32_binade[where e = 21]) (simp_all add: round_to_even_def power_int_minus)
  ultimately show ?thesis
    by simp
qed

lemma elapsed_2097152000: "fl32 (fl32 (real_of_int (sint (2097152000 :: 32 word))) / 1000) = 2097152"
proof -
  have "fl32 (real_of_int (sint (2097152000 :: 32 word))) = 2097152000"
    by (subst fl32_binade[where e = 30]) (simp_all add: round_to_even_def power_int_minus)
  moreover have "fl32 (2097152000 / 1000) = 2097152"
    by (subst fl32_binade[where e = 21]) (simp_all add: round_to_even_def power_int_minus)
  ultimately show ?thesis
    by simp
qed

lemma step_524288: "fl32 (524288 + dt) = 524288 + 1 / 8"
  unfolding dt_value
  by (subst fl32_binade[where e = 19]) (simp_all add: round_to_even_def power_int_minus)

lemma step_524288_125: "fl32 (524288 + 1 / 8 + dt) = 524288 + 1 / 4"
  unfolding dt_value
  by (subst fl32_binade[where e = 19]) (simp_all add: round_to_even_def power_int_minus)

lemma step_524288_25: "\<not> fl32 (524288 + 1 / 4 + dt) < 524288 + 1 / 4"
  unfolding dt_value
  by (subst fl32_binade[where e = 19]) (simp_all add: round_to_even_def power_int_minus)

lemma onIdle_loop_step:
  assumes "t < tend" and "fl32 (t + dt) = t'" and "fl32 (t + min dt (fl32 (tend - t))) = e"
  shows "onIdle_loop (Suc fuel) t tend calls = onIdle_loop fuel t' tend (calls @ [(t, e)])"
  using assms by (simp add: Let_def)

lemma onIdle_loop_end:
  assumes "\<not> t < tend"
  shows "onIdle_loop (Suc fuel) t tend calls = Some calls"
  using assms by simp

lemma onIdle_loop_524288:
  "onIdle_loop 3 524288 (524288 + 1 / 4) []
   = Some [(524288, 524288 + 1 / 8), (524288 + 1 / 8, 524288 + 1 / 4)]"
proof -
  have m1: "min dt (fl32 (524288 + 1 / 4 - 524288)) = dt"
    by (simp add: fl32_quarter dt_value)
  have m2: "min dt (fl32 (524288 + 1 / 4 - (524288 + 1 / 8))) = dt"
    by (simp add: fl32_eighth dt_value)
  have lt1: "(524288::real) < 524288 + 1 / 4" and lt2: "(524288::real) + 1 / 8 < 524288 + 1 / 4"
    and ge3: "\<not> (524288::real) + 1 / 4 < 524288 + 1 / 4"
    by simp_all
  have e1: "fl32 (524288 + min dt (fl32 (524288 + 1 / 4 - 524288))) = 524288 + 1 / 8"
    by (simp only: m1 step_524288)
  have e2: "fl32 (524288 + 1 / 8 + min dt (fl32 (524288 + 1 / 4 - (524288 + 1 / 8))))
            = 524288 + 1 / 4"
    by (simp only: m2 step_524288_125)
  have "onIdle_loop 3 524288 (524288 + 1 / 4) []
        = onIdle_loop (Suc (Suc (Suc 0))) 524288 (524288 + 1 / 4) []"
    by (simp only: numeral_3_eq_3)
  also have "\<dots> = onIdle_loop (Suc (Suc 0)) (524288 + 1 / 8) (524288 + 1 / 4)
                     ([] @ [(524288, 524288 + 1 / 8)])"
    by (rule onIdle_loop_step[OF lt1 step_524288 e1])
  also have "\<dots> = onIdle_loop (Suc 0) (524288 + 1 / 4) (524288 + 1 / 4)
                     (([] @ [(524288, 524288 + 1 / 8)]) @ [(524288 + 1 / 8, 524288 + 1 / 4)])"
    by (rule onIdle_loop_step[OF lt2 step_524288_125 e2])
  also have "\<dots> = Some (([] @ [(524288, 524288 + 1 / 8)]) @ [(524288 + 1 / 8, 524288 + 1 / 4)])"
    by (rule onIdle_loop_end[OF ge3])
  finally show ?thesis
    by simp
qed


lemma elapsed_524288250: "fl32 (fl32 (real_of_int (sint (524288250 :: 32 word))) / 1000) = 524288 + 1 / 4"
proof -
  have "fl32 (real_of_int (sint (524288250 :: 32 word))) = 524288256"
    by (subst fl32_binade[where e = 28]) (simp_all add: round_to_even_def power_int_minus)
  moreover have "fl32 (524288256 / 1000) = 524288 + 1 / 4"
    by (subst fl32_binade[where e = 19]) (simp_all add: round_to_even_def power_int_minus)
  ultimately show ?thesis
    by simp
qed

lemma step_2097151_75: "fl32 (2097151 + 3 / 4 + dt) = 2097151 + 7 / 8"
  unfolding dt_value
  by (subst fl32_binade[where e = 20]) (simp_all add: round_to_even_def power_int_minus)

lemma step_2097151_875: "fl32 (2097151 + 7 / 8 + dt) = 2097152"
  unfolding dt_value
  by (subst fl32_binade[where e = 20]) (simp_all add: round_to_even_def power_int_minus)

lemma onIdle_loop_2097151_75:
  "onIdle_loop 3 (2097151 + 3 / 4) 2097152 []
   = Some [(2097151 + 3 / 4, 2097151 + 7 / 8), (2097151 + 7 / 8, 2097152)]"
proof -
  have m1: "min dt (fl32 (2097152 - (2097151 + 3 / 4))) = dt"
    by (simp add: fl32_quarter dt_value)
  have m2: "min dt (fl32 (2097152 - (2097151 + 7 / 8))) = dt"
    by (simp add: fl32_eighth dt_value)
  have lt1: "(2097151::real) + 3 / 4 < 2097152" and lt2: "(2097151::real) + 7 / 8 < 2097152"
    and ge3: "\<not> (2097152::real) < 2097152"
    by simp_all
  have e1: "fl32 (2097151 + 3 / 4 + min dt (fl32 (2097152 - (2097151 + 3 / 4)))) = 2097151 + 7 / 8"
    by (simp only: m1 step_2097151_75)
  have e2: "fl32 (2097151 + 7 / 8 + min dt (fl32 (2097152 - (2097151 + 7 / 8)))) = 2097152"
    by (simp only: m2 step_2097151_875)
  have "onIdle_loop 3 (2097151 + 3 / 4) 2097152 []
        = onIdle_loop (Suc (Suc (Suc 0))) (2097151 + 3 / 4) 2097152 []"
    by (simp only: numeral_3_eq_3)
  also have "\<dots> = onIdle_loop (Suc (Suc 0)) (2097151 + 7 / 8) 2097152
                     ([] @ [(2097151 + 3 / 4, 2097151 + 7 / 8)])"
    by (rule onIdle_loop_step[OF lt1 step_2097151_75 e1])
  also have "\<dots> = onIdle_loop (Suc 0) 2097152 2097152
                     (([] @ [(2097151 + 3 / 4, 2097151 + 7 / 8)]) @ [(2097151 + 7 / 8, 2097152)])"
    by (rule onIdle_loop_step[OF lt2 step_2097151_875 e2])
  also have "\<dots> = Some (([] @ [(2097151 + 3 / 4, 2097151 + 7 / 8)]) @ [(2097151 + 7 / 8, 2097152)])"
    by (rule onIdle_loop_end[OF ge3])
  finally show ?thesis
    by simp
qed

text \<open>The first frame that ends a quarter of a second after the start is stepped as
  intended: two steps of \<open>dt\<close> and a shorter one that ends at \<open>tend\<close>.\<close>

lemma onIdle_first_frame:
  "onIdle 4 0 250 = Some (1 / 4, [(0, dt), (dt, 2 * dt), (2 * dt, 1 / 4)])"
proof -
  have tend: "fl32 (fl32 (real_of_int (sint (250 :: 32 word))) / 1000) = 1 / 4"
  proof -
    have "fl32 (real_of_int (sint (250 :: 32 word))) = 250"
      by (subst fl32_binade[where e = 7]) (simp_all add: round_to_even_def power_int_minus)
    then show ?thesis
      by (simp add: fl32_quarter)
  qed
  have s1: "fl32 (0 + dt) = dt"
    unfolding dt_value
    by (subst fl32_binade[where e = "- 4"]) (simp_all add: round_to_even_def power_int_minus)
  have s2: "fl32 (dt + dt) = 2 * dt"
    unfolding dt_value
    by (subst fl32_binade[where e = "- 3"]) (simp_all add: round_to_even_def power_int_minus)
  have s3: "fl32 (2 * dt + dt) = 10066330 / 33554432"
    unfolding dt_value
    by (subst fl32_binade[where e = "- 2"]) (simp_all add: round_to_even_def power_int_minus)
  have r2: "fl32 (1 / 4 - dt) = 10066330 / 67108864"
    unfolding dt_value
    by (subst fl32_binade[where e = "- 3"]) (simp_all add: round_to_even_def power_int_minus)
  have r3: "fl32 (1 / 4 - 2 * dt) = 1 / 4 - 2 * dt"
    unfolding dt_value
    by (subst fl32_binade[where e = "- 5"]) (simp_all add: round_to_even_def power_int_minus)
  have m1: "min dt (fl32 (1 / 4 - 0)) = dt"
    by (simp add: fl32_quarter dt_value)
  have m2: "min dt (fl32 (1 / 4 - dt)) = dt"
    unfolding r2 by (simp add: dt_value)
  have m3: "min dt (fl32 (1 / 4 - 2 * dt)) = 1 / 4 - 2 * dt"
    unfolding r3 by (simp add: dt_value)
  have lt1: "(0::real) < 1 / 4" and lt2: "dt < 1 / 4" and lt3: "2 * dt < 1 / 4"
    and ge4: "\<not> (10066330::real) / 33554432 < 1 / 4"
    by (simp_all add: dt_value)
  have e1: "fl32 (0 + min dt (fl32 (1 / 4 - 0))) = dt"
    by (simp only: m1 s1)
  have e2: "fl32 (dt + min dt (fl32 (1 / 4 - dt))) = 2 * dt"
    by (simp only: m2 s2)
  have e3: "fl32 (2 * dt + min dt (fl32 (1 / 4 - 2 * dt))) = 1 / 4"
    unfolding m3 by (simp add: fl32_quarter)
  have "onIdle_loop 4 0 (1 / 4) [] = onIdle_loop (Suc (Suc (Suc (Suc 0)))) 0 (1 / 4) []"
    by (simp add: eval_nat_numeral)
  also have "\<dots> = onIdle_loop (Suc (Suc (Suc 0))) dt (1 / 4) ([] @ [(0, dt)])"
    by (rule onIdle_loop_step[OF lt1 s1 e1])
  also have "\<dots> = onIdle_loop (Suc (Suc 0)) (2 * dt) (1 / 4) (([] @ [(0, dt)]) @ [(dt, 2 * dt)])"
    by (rule onIdle_loop_step[OF lt2 s2 e2])
  also have "\<dots> = onIdle_loop (Suc 0) (10066330 / 33554432) (1 / 4)
                     ((([] @ [(0, dt)]) @ [(dt, 2 * dt)]) @ [(2 * dt, 1 / 4)])"
    by (rule onIdle_loop_step[OF lt3 s3 e3])
  also have "\<dots> = Some ((([] @ [(0, dt)]) @ [(dt, 2 * dt)]) @ [(2 * dt, 1 / 4)])"
    by (rule onIdle_loop_end[OF ge4])
  finally have "onIdle_loop 4 0 (1 / 4) [] = Some [(0, dt), (dt, 2 * dt), (2 * dt, 1 / 4)]"
    by simp
  then show ?thesis
    unfolding onIdle_def Let_def tend by simp
qed

text \<open>
  Claim C8. The claim does not hold of the program for every pair of timestamps, because
  the loop counts in \<open>float\<close>. From \<open>2\<^sup>2\<^sup>1\<close> seconds on, neighbouring \<open>float\<close>s are a
  quarter of a second apart and \<open>t += dt\<close> rounds back to \<open>t\<close>. The idle call at
  2097152000 ms, entered with \<open>tend = 2097151.75\<close>, still returns, after two calls of
  \<open>scene.Animate\<close> over an eighth of a second each, and leaves \<open>tend = 2097152\<close>. The idle
  call at 2097152250 ms then has \<open>tstart = 2097152\<close> and \<open>tend = 2097152.25\<close>, and its loop
  does not end on any amount of fuel: every pass calls \<open>scene.Animate(t, t)\<close> with the same
  \<open>t\<close>, so \<open>[tstart, tend]\<close> is never covered. Earlier, from \<open>2\<^sup>1\<^sup>9\<close> seconds on, the
  loop still ends but \<open>t += dt\<close> rounds to a step of an eighth of a second, longer than
  the claimed bound of 0.1: the idle call at 524288250 ms, entered with \<open>tend = 524288\<close>,
  makes two calls over an eighth of a second each.
\<close>

theorem onIdle_never_returns:
  "onIdle 3 (2097151 + 3 / 4) 2097152000
     = Some (2097152, [(2097151 + 3 / 4, 2097151 + 7 / 8), (2097151 + 7 / 8, 2097152)])
   \<and> (\<forall>fuel. onIdle fuel 2097152 2097152250 = None)
   \<and> onIdle 3 524288 524288250
     = Some (524288 + 1 / 4, [(524288, 524288 + 1 / 8), (524288 + 1 / 8, 524288 + 1 / 4)])"
proof -
  have a: "onIdle 3 (2097151 + 3 / 4) 2097152000
           = Some (2097152, [(2097151 + 3 / 4, 2097151 + 7 / 8), (2097151 + 7 / 8, 2097152)])"
    unfolding onIdle_def Let_def elapsed_2097152000 onIdle_loop_2097151_75 by simp
  have b: "onIdle fuel 2097152 2097152250 = None" for fuel
    unfolding onIdle_def Let_def elapsed_2097152250 onIdle_loop_stalls by simp
  have c: "onIdle 3 524288 524288250
           = Some (524288 + 1 / 4, [(524288, 524288 + 1 / 8), (524288 + 1 / 8, 524288 + 1 / 4)])"
    unfolding onIdle_def Let_def elapsed_524288250 onIdle_loop_524288 by simp
  from a b c show ?thesis
    by blast
qed

section \<open>The light vector of the vertex shaders\<close>

lemma Phong_vertex_wLight_length:
  "length (Phong_vertex_wLight lts nLights wPos i wLight) = length wLight"
proof (induction lts nLights wPos i wLight rule: Phong_vertex_wLight.induct)
  case (1 lts nLights wPos i wLight)
  then show ?case
    by (subst Phong_vertex_wLight.simps) simp
qed

lemma Phong_vertex_wLight_nth:
  assumes "k < nLights" and "nLights \<le> length wLight"
  shows "Phong_vertex_wLight lts nLights wPos i wLight ! k
         = (if i \<le> k then light_vector (wLightPos (lts ! k)) wPos else wLight ! k)"
  using assms
proof (induction lts nLights wPos i wLight rule: Phong_vertex_wLight.induct)
  case (1 lts nLights wPos i wLight)
  show ?case
  proof (cases "i < nLights")
    case True
    with 1 show ?thesis
      by (subst Phong_vertex_wLight.simps) (auto simp: nth_list_update not_less_eq_eq dest: le_antisym)
  next
    case False
    with 1 show ?thesis
      by (subst Phong_vertex_wLight.simps) auto
  qed
qed

lemma affine_mul: "affine a \<Longrightarrow> affine b \<Longrightarrow> affine (mat4_mul a b)"
  by (cases a; cases b) (simp add: affine_def mat4_mul_def vec4_mat4_def vec4_defs)

lemma affine_basic: "affine (ScaleMatrix s)" "affine (TranslateMatrix t)"
  "affine (axis_angle_rotation angle w)"
  by (simp_all add: affine_def ScaleMatrix_def TranslateMatrix_def axis_angle_rotation_def
      Let_def mat4_def)

lemma affine_model:
  assumes "affine (RotationMatrix (rotationAngle this) (rotationAxis this))"
  shows "affine (fst (SetModelingTransform RotationMatrix this))"
  using assms by (simp add: SetModelingTransform_def affine_mul affine_basic)

lemma vertex_wPos_w: "affine M \<Longrightarrow> v4w (vertex_wPos vtxPos M) = 1"
  by (cases M) (simp add: affine_def vertex_wPos_def vec4_mat4_def vec4_defs)

text \<open>
  Claim C5. The light vector is \<open>lightPos.xyz * wPos.w - wPos.xyz * lightPos.w\<close> in all
  three vertex shaders (Phong per light of the loop, NPR for its one light, Gouraud
  normalized). For a light with \<open>w = 0\<close> it does not change when the fragment moves
  to another position \<open>(x', y', z')\<close>; for a light with \<open>w = 1\<close> and a fragment
  position \<open>(x, y, z, 1)\<close> it is \<open>lightPos.xyz - (x, y, z)\<close>. The fourth coordinate of
  \<open>wPos = vec4(vtxPos, 1) * M\<close> is 1 for every matrix \<open>M\<close> with the last column
  \<open>(0, 0, 0, 1)\<close>, as the modeling transforms are.
\<close>

theorem light_vector_homogeneous:
  "(v4w dirLight = 0 \<longrightarrow>
      light_vector dirLight (vec4 x y z w) = light_vector dirLight (vec4 x' y' z' w))
   \<and> (v4w posLight = 1 \<longrightarrow>
      light_vector posLight (vec4 x y z 1) = vec3_sub (xyz posLight) (vec3 x y z))
   \<and> (affine M \<longrightarrow> v4w (vertex_wPos vtxPos M) = 1)
   \<and> (k < nLights \<and> nLights \<le> length wLight \<longrightarrow>
      Phong_vertex_wLight lts nLights wPos 0 wLight ! k
        = light_vector (wLightPos (lts ! k)) wPos)
   \<and> NPR_vertex_wLight lightPos wPos = light_vector lightPos wPos
   \<and> Gouraud_vertex_L lightPos wPos = normalize3 (light_vector lightPos wPos)"
proof -
  have "light_vector dirLight (vec4 x y z w) = light_vector dirLight (vec4 x' y' z' w)"
    if "v4w dirLight = 0"
    using that by (simp add: light_vector_def vec3_defs vec4_defs)
  moreover have "light_vector posLight (vec4 x y z 1) = vec3_sub (xyz posLight) (vec3 x y z)"
    if "v4w posLight = 1"
    using that by (simp add: light_vector_def vec3_defs vec4_defs)
  moreover have "Phong_vertex_wLight lts nLights wPos 0 wLight ! k
        = light_vector (wLightPos (lts ! k)) wPos"
    if "k < nLights \<and> nLights \<le> length wLight"
    using that by (simp add: Phong_vertex_wLight_nth)
  ultimately show ?thesis
    by (simp add: NPR_vertex_wLight_def Gouraud_vertex_L_def vertex_wPos_w)
qed

theorem light_vector_homogeneous_witness:
  "v4w (vec4 0 1 0 0) = 0 \<and> v4w (vec4 5 5 4 1) = 1 \<and> affine identity4
   \<and> (1::nat) < 3 \<and> 3 \<le> length (replicate 8 (vec3 0 0 0))
   \<and> light_vector (vec4 0 1 0 0) (vec4 1 2 3 1) = light_vector (vec4 0 1 0 0) (vec4 4 5 6 1)
   \<and> light_vector (vec4 5 5 4 1) (vec4 1 2 3 1) = vec3 4 3 1
   \<and> v4w (vertex_wPos (vec3 1 2 3) identity4) = 1
   \<and> Phong_vertex_wLight build_lights 3 (vec4 1 2 3 1) 0 (replicate 8 (vec3 0 0 0)) ! 1
       = light_vector (wLightPos (build_lights ! 1)) (vec4 1 2 3 1)"
proof -
  have h: "v4w (vec4 0 1 0 0) = 0" "v4w (vec4 5 5 4 1) = 1" "affine identity4"
    "(1::nat) < 3 \<and> 3 \<le> length (replicate 8 (vec3 0 0 0))"
    by (simp_all add: affine_def identity4_def mat4_def)
  note inst = light_vector_homogeneous[where dirLight = "vec4 0 1 0 0"
      and posLight = "vec4 5 5 4 1" and x = 1 and y = 2 and z = 3 and w = 1
      and x' = 4 and y' = 5 and z' = 6 and M = identity4 and vtxPos = "vec3 1 2 3"
      and k = 1 and nLights = 3 and wLight = "replicate 8 (vec3 0 0 0)"
      and lts = build_lights and wPos = "vec4 1 2 3 1"]
  from inst h have "light_vector (vec4 5 5 4 1) (vec4 1 2 3 1) = vec3_sub (xyz (vec4 5 5 4 1)) (vec3 1 2 3)"
    by blast
  then have "light_vector (vec4 5 5 4 1) (vec4 1 2 3 1) = vec3 4 3 1"
    by (simp add: vec3_sub_def xyz_def)
  with inst h show ?thesis
    by blast
qed

section \<open>The Phong fragment shader\<close>

lemma Phong_fragment_term_twice:
  "Phong_fragment_term m t N V l w = Phong_Blinn_term (m\<lparr>kd := vec3_mul (kd m) t\<rparr>) t N V l w"
  by (simp add: Phong_fragment_term_def Phong_Blinn_term_def Let_def)

lemma Phong_fragment_term_idempotent:
  assumes "vec3_mul t t = t"
  shows "Phong_fragment_term m t N V l w = Phong_Blinn_term m t N V l w"
proof -
  have "vec3_mul (vec3_mul (kd m) t) t = vec3_mul (kd m) (vec3_mul t t)"
    by (simp add: vec3_mul_def)
  with assms show ?thesis
    by (simp add: Phong_fragment_term_def Phong_Blinn_term_def Let_def)
qed

lemma Phong_fragment_loop_one:
  "Phong_fragment_loop m ls 1 t N V ws 0 r
     = vec3_add r (Phong_fragment_term m t N V (ls ! 0) (ws ! 0))"
  by (subst Phong_fragment_loop.simps, simp, subst Phong_fragment_loop.simps, simp)

text \<open>The loop adds up the stated sum, for the material with the diffuse coefficient
  already multiplied by the texture colour.\<close>

lemma vec3_add_assoc: "vec3_add (vec3_add a b) c = vec3_add a (vec3_add b c)"
  by (simp add: vec3_add_def)

lemma vec3_add_zero: "vec3_add a (vec3 0 0 0) = a"
  by (simp add: vec3_add_def)

lemma Phong_fragment_loop_sum:
  "Phong_fragment_loop m ls nLights t N V ws i r
     = vec3_add r (Phong_Blinn_sum (m\<lparr>kd := vec3_mul (kd m) t\<rparr>) t N V
                     (map (\<lambda>k. (ls ! k, ws ! k)) [i..<nLights]))"
proof (induction m ls nLights t N V ws i r rule: Phong_fragment_loop.induct)
  case (1 m ls nLights t N V ws i r)
  show ?case
  proof (cases "i < nLights")
    case True
    then have "[i..<nLights] = i # [i + 1..<nLights]"
      by (simp add: upt_rec)
    with True 1 show ?thesis
      by (subst Phong_fragment_loop.simps)
         (simp add: Phong_fragment_term_twice vec3_add_assoc)
  next
    case False
    then show ?thesis
      by (subst Phong_fragment_loop.simps) (simp add: vec3_add_zero)
  qed
qed

text \<open>
  Claim C6. The fragment shader adds, for each active light,
  \<open>ka * La + (kd * cos\<theta> + ks * cos\<phi> ^ shininess) * Le\<close> with \<open>cos\<theta> = max(N\<cdot>L, 0)\<close>,
  \<open>cos\<phi> = max(N\<cdot>H, 0)\<close> and \<open>H\<close> the normalized half vector, and its ambient coefficient
  is the material's multiplied once by the texture colour; but its diffuse
  coefficient is the material's multiplied by the texture colour twice (lemma
  \<open>Phong_fragment_term_twice\<close>). With the first material and the first light of the
  scene, normal, view and light vector all \<open>(0, 0, 1)\<close> and the texture colour
  \<open>(1/2, 1/2, 1/2)\<close>, the shader yields the red component \<open>2491 / 200\<close> where the sum
  with a diffuse coefficient modulated once yields \<open>2581 / 200\<close>.
\<close>

theorem Phong_fragment_diffuse_twice:
  "Phong_fragment material0 build_lights 1 (\<lambda>uv. vec4 (1 / 2) (1 / 2) (1 / 2) 1)
       (vec3 0 0 1) (vec3 0 0 1) (replicate 8 (vec3 0 0 1)) (vec2 0 0)
     = vec4 (2491 / 200) (1 / 200) (1 / 20) 1
   \<and> Phong_Blinn_sum material0 (vec3 (1 / 2) (1 / 2) (1 / 2)) (vec3 0 0 1) (vec3 0 0 1)
       [(build_lights ! 0, vec3 0 0 1)]
     = vec3 (2581 / 200) (1 / 200) (1 / 20)"
proof -
  let ?t = "vec3 (1 / 2) (1 / 2) (1 / 2)"
  have n: "normalize3 (vec3 0 0 1) = vec3 0 0 1"
    by (simp add: normalize3_def length3_def dot_def vec3_times_def)
  have h: "normalize3 (vec3_add (vec3 0 0 1) (vec3 0 0 1)) = vec3 0 0 1"
    by (simp add: normalize3_def length3_def dot_def vec3_times_def vec3_add_def)
  have d: "dot (vec3 0 0 1) (vec3 0 0 1) = 1"
    by (simp add: dot_def)
  have r: "replicate 8 (vec3 0 0 1) ! 0 = vec3 0 0 1"
    by simp
  have l: "build_lights ! 0 = \<lparr>La = vec3 0.1 0.1 1, Le = vec3 3 0 0, wLightPos = vec4 5 5 4 1\<rparr>"
    by (simp add: build_lights_def)
  have code: "Phong_fragment_term material0 ?t (vec3 0 0 1) (vec3 0 0 1) (build_lights ! 0) (vec3 0 0 1)
        = vec3 (2491 / 200) (1 / 200) (1 / 20)"
    unfolding Phong_fragment_term_def Let_def n h d l
    by (simp add: material0_def vec3_add_def vec3_mul_def vec3_times_def)
  have spec: "Phong_Blinn_term material0 ?t (vec3 0 0 1) (vec3 0 0 1) (build_lights ! 0) (vec3 0 0 1)
        = vec3 (2581 / 200) (1 / 200) (1 / 20)"
    unfolding Phong_Blinn_term_def Let_def n h d l
    by (simp add: material0_def vec3_add_def vec3_mul_def vec3_times_def)
  have "Phong_fragment_loop material0 build_lights 1 ?t (vec3 0 0 1) (vec3 0 0 1)
          (replicate 8 (vec3 0 0 1)) 0 (vec3 0 0 0)
        = vec3_add (vec3 0 0 0) (vec3 (2491 / 200) (1 / 200) (1 / 20))"
    by (simp only: Phong_fragment_loop_one r code)
  then have loop: "Phong_fragment_loop material0 build_lights 1 ?t (vec3 0 0 1) (vec3 0 0 1)
          (replicate 8 (vec3 0 0 1)) 0 (vec3 0 0 0) = vec3 (2491 / 200) (1 / 200) (1 / 20)"
    by (simp add: vec3_add_def)
  have flip: "(if (1::real) < 0 then vec3_neg (vec3 0 0 1) else vec3 0 0 1) = vec3 0 0 1"
    by simp
  have x: "xyz (vec4 (1 / 2) (1 / 2) (1 / 2) 1) = ?t"
    by (simp add: xyz_def)
  have "Phong_fragment material0 build_lights 1 (\<lambda>uv. vec4 (1 / 2) (1 / 2) (1 / 2) 1)
       (vec3 0 0 1) (vec3 0 0 1) (replicate 8 (vec3 0 0 1)) (vec2 0 0)
     = vec4 (2491 / 200) (1 / 200) (1 / 20) 1"
    unfolding Phong_fragment_def Let_def n d x flip
    by (simp only: loop vec3.sel)
  moreover have "Phong_Blinn_sum material0 ?t (vec3 0 0 1) (vec3 0 0 1)
       [(build_lights ! 0, vec3 0 0 1)] = vec3 (2581 / 200) (1 / 200) (1 / 20)"
    by (simp only: Phong_Blinn_sum.simps spec) (simp add: vec3_add_def)
  ultimately show ?thesis
    by simp
qed

section \<open>Binding the NPR shader\<close>

text \<open>
  Claim C9. \<open>NPRShader::Bind\<close> reads \<open>state.lights[0]\<close> whatever the state is. For a
  state with the lights \<open>l # rest\<close> the access is in bounds, the position of \<open>l\<close> is the
  only light datum among the seven calls, and replacing \<open>rest\<close> by any other lights
  changes nothing. For a state without lights the access is out of bounds.
\<close>

theorem NPRShader_Bind_first_light:
  "(st_lights state = l # rest \<longrightarrow>
      NPRShader_Bind state
        = Inr [Use NPRShader,
               setUniform (UMat4 (st_MVP state)) ''MVP'',
               setUniform (UMat4 (st_M state)) ''M'',
               setUniform (UMat4 (st_Minv state)) ''Minv'',
               setUniform (UVec3 (st_wEye state)) ''wEye'',
               setUniform (USampler (st_texture state)) ''diffuseTexture'',
               setUniform (UVec4 (wLightPos l)) ''wLightPos'']
      \<and> NPRShader_Bind (state\<lparr>st_lights := l # rest'\<rparr>) = NPRShader_Bind state)
   \<and> (st_lights state \<noteq> [] \<longrightarrow> (\<exists>calls. NPRShader_Bind state = Inr calls))
   \<and> (st_lights dark_state = [] \<longrightarrow> NPRShader_Bind dark_state = Inl OutOfBounds)"
  by (auto simp: NPRShader_Bind_def)

theorem NPRShader_Bind_first_light_witness:
  "st_lights (fresh_state\<lparr>st_lights := build_lights\<rparr>) = hd build_lights # tl build_lights
   \<and> st_lights (fresh_state\<lparr>st_lights := build_lights\<rparr>) \<noteq> []
   \<and> st_lights fresh_state = []
   \<and> NPRShader_Bind (fresh_state\<lparr>st_lights := build_lights\<rparr>)
       = Inr [Use NPRShader,
              setUniform (UMat4 identity4) ''MVP'',
              setUniform (UMat4 identity4) ''M'',
              setUniform (UMat4 identity4) ''Minv'',
              setUniform (UVec3 (vec3 0 0 0)) ''wEye'',
              setUniform (USampler 0) ''diffuseTexture'',
              setUniform (UVec4 (vec4 5 5 4 1)) ''wLightPos'']
   \<and> NPRShader_Bind (fresh_state\<lparr>st_lights := [hd build_lights]\<rparr>)
       = NPRShader_Bind (fresh_state\<lparr>st_lights := build_lights\<rparr>)
   \<and> NPRShader_Bind fresh_state = Inl OutOfBounds"
proof -
  let ?state = "fresh_state\<lparr>st_lights := build_lights\<rparr>"
  have h: "st_lights ?state = hd build_lights # tl build_lights" "st_lights ?state \<noteq> []"
    "st_lights fresh_state = []"
    by (simp_all add: build_lights_def fresh_state_def)
  note inst = NPRShader_Bind_first_light[where state = "?state" and l = "hd build_lights"
      and rest = "tl build_lights" and rest' = "[]" and dark_state = fresh_state]
  have "wLightPos (hd build_lights) = vec4 5 5 4 1"
    by (simp add: build_lights_def)
  with inst h show ?thesis
    by (simp add: fresh_state_def)
qed

section \<open>Drawing an object, rendering the scene\<close>

lemma Object_Draw_frame:
  "this_after (Object_Draw R obj st) = obj"
  "caller_state_after (Object_Draw R obj st) = st"
  "st_V (bound_state (Object_Draw R obj st)) = st_V st"
  "st_P (bound_state (Object_Draw R obj st)) = st_P st"
  "st_wEye (bound_state (Object_Draw R obj st)) = st_wEye st"
  "st_lights (bound_state (Object_Draw R obj st)) = st_lights st"
  by (simp_all add: Object_Draw_def Let_def split: prod.split)

lemma Object_Draw_bound:
  "st_M (bound_state (Object_Draw R obj st)) = fst (SetModelingTransform R obj)"
  "st_Minv (bound_state (Object_Draw R obj st)) = snd (SetModelingTransform R obj)"
  "st_MVP (bound_state (Object_Draw R obj st))
     = mat4_mul (mat4_mul (fst (SetModelingTransform R obj)) (st_V st)) (st_P st)"
  "st_material (bound_state (Object_Draw R obj st)) = material obj"
  "st_texture (bound_state (Object_Draw R obj st)) = texture obj"
  by (simp_all add: Object_Draw_def Let_def split: prod.split)

lemma Bind_total: "st_lights st \<noteq> [] \<Longrightarrow> \<exists>calls. Bind sh st = Inr calls"
  by (cases sh) (simp_all add: NPRShader_Bind_def)

lemma Object_Draw_total:
  assumes "st_lights st \<noteq> []"
  shows "\<exists>calls. gpu (Object_Draw R obj st) = Inr calls"
proof -
  let ?b = "bound_state (Object_Draw R obj st)"
  have "st_lights ?b \<noteq> []"
    using assms by (simp add: Object_Draw_frame)
  then obtain calls where "Bind (shader obj) ?b = Inr calls"
    using Bind_total by blast
  moreover have "gpu (Object_Draw R obj st)
      = (case Bind (shader obj) ?b of Inl e \<Rightarrow> Inl e
         | Inr calls \<Rightarrow> Inr (calls @ Draw (geometry obj)))"
    by (simp add: Object_Draw_def Let_def split: prod.split)
  ultimately show ?thesis
    by simp
qed

lemma Render_objects_Inr:
  "Render_objects R objs st = Inr calls \<Longrightarrow> calls = map (\<lambda>obj. Object_Draw R obj st) objs"
  by (induction objs arbitrary: calls)
     (auto simp: Let_def Object_Draw_frame split: sum.splits)

lemma Render_objects_total:
  "st_lights st \<noteq> [] \<Longrightarrow> \<exists>calls. Render_objects R objs st = Inr calls"
proof (induction objs)
  case Nil
  then show ?case by simp
next
  case (Cons obj objs)
  from Cons obtain rest where "Render_objects R objs st = Inr rest"
    by blast
  moreover from Cons.prems obtain calls where "gpu (Object_Draw R obj st) = Inr calls"
    using Object_Draw_total by blast
  ultimately show ?case
    by (simp add: Let_def Object_Draw_frame)
qed

lemma Render_eq: "Render R state0 scene = Render_objects R (objects scene) (Render_state state0 scene)"
  by (simp add: Render_def Render_state_def Let_def)

text \<open>
  Claim C10. \<open>Object::Draw\<close> leaves the object and the caller's render state as they
  were; the copy that it binds has the caller's view matrix, projection matrix, eye
  position and lights, and the object's material and texture. \<open>Scene::Render\<close>, which
  cannot fail when the scene has a light, therefore draws every object of the
  traversal, in order, with the view and projection matrix of the camera, the eye
  position of the camera and the lights of the scene.
\<close>

theorem Object_Draw_keeps_caller_state:
  "this_after (Object_Draw R obj st) = obj
   \<and> caller_state_after (Object_Draw R obj st) = st
   \<and> st_V (bound_state (Object_Draw R obj st)) = st_V st
   \<and> st_P (bound_state (Object_Draw R obj st)) = st_P st
   \<and> st_wEye (bound_state (Object_Draw R obj st)) = st_wEye st
   \<and> st_lights (bound_state (Object_Draw R obj st)) = st_lights st
   \<and> st_material (bound_state (Object_Draw R obj st)) = material obj
   \<and> st_texture (bound_state (Object_Draw R obj st)) = texture obj
   \<and> (lights scene \<noteq> [] \<longrightarrow> (\<exists>calls. Render R initial scene = Inr calls))
   \<and> (Render R initial scene = Inr calls \<longrightarrow>
        length calls = length (objects scene)
        \<and> (\<forall>k < length (objects scene).
              this_after (calls ! k) = objects scene ! k
              \<and> st_V (bound_state (calls ! k)) = Camera_V (camera scene)
              \<and> st_P (bound_state (calls ! k)) = Camera_P (camera scene)
              \<and> st_wEye (bound_state (calls ! k)) = wEye (camera scene)
              \<and> st_lights (bound_state (calls ! k)) = lights scene))"
proof -
  have total: "\<exists>calls. Render R initial scene = Inr calls" if "lights scene \<noteq> []"
    unfolding Render_eq using that
    by (intro Render_objects_total) (simp add: Render_state_def)
  have all: "length calls = length (objects scene)
        \<and> (\<forall>k < length (objects scene).
              this_after (calls ! k) = objects scene ! k
              \<and> st_V (bound_state (calls ! k)) = Camera_V (camera scene)
              \<and> st_P (bound_state (calls ! k)) = Camera_P (camera scene)
              \<and> st_wEye (bound_state (calls ! k)) = wEye (camera scene)
              \<and> st_lights (bound_state (calls ! k)) = lights scene)"
    if "Render R initial scene = Inr calls"
  proof -
    from that have "calls = map (\<lambda>obj. Object_Draw R obj (Render_state initial scene)) (objects scene)"
      unfolding Render_eq by (rule Render_objects_Inr)
    then show ?thesis
      by (simp add: Object_Draw_frame Render_state_def)
  qed
  show ?thesis
    using total all by (simp add: Object_Draw_frame Object_Draw_bound)
qed

theorem Object_Draw_keeps_caller_state_witness:
  "lights \<lparr>objects = [sphereObject1, sphereObject1\<lparr>shader := NPRShader\<rparr>],
           camera = build_camera, lights = build_lights\<rparr> \<noteq> []
   \<and> (\<exists>calls. Render axis_angle_rotation fresh_state
                 \<lparr>objects = [sphereObject1, sphereObject1\<lparr>shader := NPRShader\<rparr>],
                  camera = build_camera, lights = build_lights\<rparr> = Inr calls
        \<and> length calls = 2
        \<and> this_after (calls ! 1) = sphereObject1\<lparr>shader := NPRShader\<rparr>
        \<and> st_V (bound_state (calls ! 1)) = Camera_V build_camera
        \<and> st_P (bound_state (calls ! 1)) = Camera_P build_camera
        \<and> st_wEye (bound_state (calls ! 1)) = vec3 10 3 10
        \<and> st_lights (bound_state (calls ! 1)) = build_lights)"
proof -
  let ?scene = "\<lparr>objects = [sphereObject1, sphereObject1\<lparr>shader := NPRShader\<rparr>],
                 camera = build_camera, lights = build_lights\<rparr>"
  have h: "lights ?scene \<noteq> []"
    by (simp add: build_lights_def)
  from h Object_Draw_keeps_caller_state[where scene = "?scene" and R = axis_angle_rotation
      and initial = fresh_state]
  obtain calls where r: "Render axis_angle_rotation fresh_state ?scene = Inr calls"
    by blast
  have "(1::nat) < length (objects ?scene)"
    by simp
  with r Object_Draw_keeps_caller_state[where scene = "?scene" and R = axis_angle_rotation
      and initial = fresh_state and calls = calls]
  have "length calls = length (objects ?scene)
        \<and> this_after (calls ! 1) = objects ?scene ! 1
        \<and> st_V (bound_state (calls ! 1)) = Camera_V (camera ?scene)
        \<and> st_P (bound_state (calls ! 1)) = Camera_P (camera ?scene)
        \<and> st_wEye (bound_state (calls ! 1)) = wEye (camera ?scene)
        \<and> st_lights (bound_state (calls ! 1)) = lights ?scene"
    by blast
  then have "length calls = 2
        \<and> this_after (calls ! 1) = sphereObject1\<lparr>shader := NPRShader\<rparr>
        \<and> st_V (bound_state (calls ! 1)) = Camera_V build_camera
        \<and> st_P (bound_state (calls ! 1)) = Camera_P build_camera
        \<and> st_wEye (bound_state (calls ! 1)) = vec3 10 3 10
        \<and> st_lights (bound_state (calls ! 1)) = build_lights"
    by (simp add: build_camera_def)
  with h r show ?thesis
    by blast
qed

end
